theory Spec2Isabelle
  imports Complex_Main
begin

section \<open>Errors raised by the Python code\<close>

text \<open>
  Every \<^verbatim>\<open>raise\<close>, failed \<^verbatim>\<open>assert\<close> and failing library call of the source
  is a value of this type; a function that may raise returns \<open>error + 'a\<close>.
\<close>

datatype error = ValueError | IndexError | RuntimeError | ZeroDivisionError | AssertionError
  | AttributeError | TypeError

section \<open>Trainer: the learning-rate schedule\<close>

text \<open>
  The fields of \<^verbatim>\<open>Trainer\<close> read by \<^verbatim>\<open>_get_lr\<close>. Python floats are modelled as
  reals, the iteration counts as (unbounded) integers.
\<close>

record trainer =
  learning_rate :: real
  warmup_iters :: int
  lr_decay_iters :: int
  min_lr :: real

text \<open>
  \<^verbatim>\<open>Trainer._get_lr\<close>: linear warmup, then the floor beyond the horizon, then cosine
  decay. The two true divisions raise on a zero divisor and the \<^verbatim>\<open>assert\<close> on the
  decay ratio is a branch of its own.
\<close>

definition get_lr :: "trainer \<Rightarrow> int \<Rightarrow> error + real" where
  "get_lr self it =
     (if it < warmup_iters self then
        (if warmup_iters self = 0 then Inl ZeroDivisionError
         else Inr (learning_rate self * of_int it / of_int (warmup_iters self)))
      else if it > lr_decay_iters self then Inr (min_lr self)
      else if lr_decay_iters self - warmup_iters self = 0 then Inl ZeroDivisionError
      else
        (let decay_ratio = (of_int (it - warmup_iters self) :: real)
                             / of_int (lr_decay_iters self - warmup_iters self)
         in if \<not> (0 \<le> decay_ratio \<and> decay_ratio \<le> 1) then Inl AssertionError
            else
              (let coeff = 0.5 * (1.0 + cos (pi * decay_ratio))
               in Inr (min_lr self + coeff * (learning_rate self - min_lr self)))))"

text \<open>Both calls return, and the first rate is at most the second.\<close>

definition returns_le :: "error + real \<Rightarrow> error + real \<Rightarrow> bool" where
  "returns_le x y = (case x of Inl _ \<Rightarrow> False
                     | Inr a \<Rightarrow> (case y of Inl _ \<Rightarrow> False | Inr b \<Rightarrow> a \<le> b))"


section \<open>Sequencing of calls that may raise\<close>

definition ebind :: "error + 'a \<Rightarrow> ('a \<Rightarrow> error + 'b) \<Rightarrow> error + 'b" where
  "ebind m f = (case m of Inl e \<Rightarrow> Inl e | Inr x \<Rightarrow> f x)"

text \<open>An operation applied to every element of a list; the first failure is the result.\<close>

fun emap :: "('a \<Rightarrow> error + 'b) \<Rightarrow> 'a list \<Rightarrow> error + 'b list" where
  "emap f [] = Inr []"
| "emap f (x # xs) = ebind (f x) (\<lambda>y. ebind (emap f xs) (\<lambda>ys. Inr (y # ys)))"

section \<open>Tensors\<close>

text \<open>
  A tensor is a nested list of reals (Python floats are modelled as reals), a
  \<^verbatim>\<open>LongTensor\<close> of token ids a nested list of integers. A logit that may have been
  overwritten by \<^verbatim>\<open>-float('Inf')\<close> is a \<open>score\<close>.
\<close>

datatype score = NegInf | Finite real

definition exp_score :: "score \<Rightarrow> real" where
  "exp_score s = (case s of NegInf \<Rightarrow> 0 | Finite x \<Rightarrow> exp x)"

definition dot :: "real list \<Rightarrow> real list \<Rightarrow> real" where
  "dot u v = sum_list (map (\<lambda>(a, b). a * b) (zip u v))"

text \<open>
  \<^verbatim>\<open>F.softmax(row, dim=-1)\<close> on one row. Where every entry is \<open>-inf\<close> (or the row is
  empty) the normaliser is zero; PyTorch then yields NaN (or nothing), here the
  unnormalised zeros are divided by zero, and every caller below checks the normaliser
  before it uses such a row.
\<close>

definition softmax :: "score list \<Rightarrow> real list" where
  "softmax row = map (\<lambda>s. exp_score s / sum_list (map exp_score row)) row"

text \<open>\<^verbatim>\<open>nn.Linear(in_features, out_features, bias=False)\<close> applied to one vector.\<close>

definition linear_nobias :: "nat \<Rightarrow> real list list \<Rightarrow> real list \<Rightarrow> error + real list" where
  "linear_nobias in_features W x =
     (if length x \<noteq> in_features then Inl RuntimeError else Inr (map (\<lambda>w. dot w x) W))"

text \<open>The shape of a rank-3 tensor.\<close>

definition has_shape3 :: "'a list list list \<Rightarrow> nat \<Rightarrow> nat \<Rightarrow> nat \<Rightarrow> bool" where
  "has_shape3 t a b c =
     (length t = a \<and> list_all (\<lambda>m. length m = b \<and> list_all (\<lambda>r. length r = c) m) t)"

section \<open>Jointformer\<close>

text \<open>
  \<^verbatim>\<open>Transformer.forward\<close>, \<^verbatim>\<open>RegressionHead\<close>, \<^verbatim>\<open>ClassificationHead\<close> and
  \<^verbatim>\<open>ModelOutput\<close> are imported by \<^verbatim>\<open>jointformer.py\<close> from modules outside the
  sources at hand. The transformer body and the two prediction heads are therefore
  fields of the model (functions that may raise); the two linear heads are their weight
  matrices, of shape \<open>vocab_size \<times> embedding_dim\<close>. \<^verbatim>\<open>num_prediction_tasks\<close> is read by
  \<^verbatim>\<open>get_loss_prediction\<close> but not assigned by \<^verbatim>\<open>__init__\<close>: \<open>None\<close> is the attribute
  being absent.
\<close>

record transformer_output =
  body_embeddings :: "real list list list"
  body_layer_embeddings :: "real list list list list option"

record jointformer =
  embedding_dim :: nat
  max_seq_len :: nat
  prediction_task_type :: string
  num_prediction_tasks :: "int option"
  transformer_forward ::
    "int list list \<Rightarrow> bool list list option \<Rightarrow> bool \<Rightarrow> error + transformer_output"
  lm_head_weight :: "real list list"
  mlm_head_weight :: "real list list"
  physchem_head :: "real list list \<Rightarrow> error + real list list"
  prediction_head :: "real list list \<Rightarrow> error + real list list"

record model_output =
  attention_mask :: "bool list list option"
  embeddings :: "real list list list"
  cls_embeddings :: "real list list"
  lm_embeddings :: "real list list list"
  logits_generation :: "real list list list option"
  logits_physchem :: "real list list option"
  logits_prediction :: "real list list option"
  layer_embeddings :: "real list list list list option"
  loss :: "real option"

text \<open>\<^verbatim>\<open>embeddings[:, 0]\<close>: position 0 of every sequence; raises on an empty sequence axis.\<close>

definition get_cls_embeddings :: "real list list list \<Rightarrow> error + real list list" where
  "get_cls_embeddings embs = (if [] \<in> set embs then Inl IndexError else Inr (map hd embs))"

text \<open>\<^verbatim>\<open>embeddings[:, [-1]] if next_token_only else embeddings\<close>.\<close>

definition get_lm_embeddings :: "real list list list \<Rightarrow> bool \<Rightarrow> error + real list list list" where
  "get_lm_embeddings embs next_token_only =
     (if next_token_only then
        (if [] \<in> set embs then Inl IndexError else Inr (map (\<lambda>e. [last e]) embs))
      else Inr embs)"

text \<open>A bias-free linear head applied at every position of every sequence.\<close>

definition apply_head :: "nat \<Rightarrow> real list list \<Rightarrow> real list list list \<Rightarrow> error + real list list list" where
  "apply_head in_features W t = emap (emap (linear_nobias in_features W)) t"

text \<open>
  \<^verbatim>\<open>Jointformer.forward\<close>. The task tag selects the masking mode; a tag outside the four
  accepted ones raises \<^verbatim>\<open>ValueError\<close> before anything is computed.
\<close>

definition forward ::
  "jointformer \<Rightarrow> int list list \<Rightarrow> string \<Rightarrow> bool list list option \<Rightarrow> bool \<Rightarrow> error + model_output" where
  "forward self input_ids task attn_mask next_token_only =
     ebind (if task = ''generation'' then Inr (True, None)
            else if task \<in> set [''physchem'', ''prediction'', ''mlm''] then Inr (False, attn_mask)
            else Inl ValueError)
       (\<lambda>(is_causal, body_mask).
     ebind (transformer_forward self input_ids body_mask is_causal) (\<lambda>outputs.
     ebind (get_cls_embeddings (body_embeddings outputs)) (\<lambda>cls.
     ebind (get_lm_embeddings (body_embeddings outputs) next_token_only) (\<lambda>lm.
     if is_causal then
       ebind (apply_head (embedding_dim self) (lm_head_weight self) lm) (\<lambda>lg.
         Inr \<lparr>attention_mask = attn_mask, embeddings = body_embeddings outputs,
              cls_embeddings = cls, lm_embeddings = lm,
              logits_generation = Some lg, logits_physchem = None, logits_prediction = None,
              layer_embeddings = body_layer_embeddings outputs, loss = None\<rparr>)
     else
       ebind (physchem_head self cls) (\<lambda>pc.
       ebind (prediction_head self cls) (\<lambda>pr.
         Inr \<lparr>attention_mask = attn_mask, embeddings = body_embeddings outputs,
              cls_embeddings = cls, lm_embeddings = lm,
              logits_generation = None, logits_physchem = Some pc, logits_prediction = Some pr,
              layer_embeddings = body_layer_embeddings outputs, loss = None\<rparr>))))))"

text \<open>\<^verbatim>\<open>Jointformer.predict\<close>.\<close>

definition predict :: "jointformer \<Rightarrow> int list list \<Rightarrow> bool list list option \<Rightarrow> error + model_output" where
  "predict self input_ids attn_mask = forward self input_ids ''prediction'' attn_mask False"

text \<open>
  The loss functions of \<^verbatim>\<open>torch.nn.functional\<close> and the constant
  \<^verbatim>\<open>TOKEN_DICT['ignore']\<close> (defined in a module outside the sources at hand) are
  parameters: each loss function takes flattened arguments and returns a scalar or raises.
\<close>

record functional =
  cross_entropy :: "real list list \<Rightarrow> int list \<Rightarrow> int \<Rightarrow> error + real"
  cross_entropy_targets :: "real list list \<Rightarrow> real list list \<Rightarrow> error + real"
  binary_cross_entropy_with_logits :: "real list list \<Rightarrow> real list list \<Rightarrow> error + real"
  mse_loss :: "real list \<Rightarrow> real list \<Rightarrow> error + real"
  token_ignore :: int

text \<open>
  \<^verbatim>\<open>logits.view(batch_size * seq_length, vocab_size)\<close> and
  \<^verbatim>\<open>labels.view(batch_size * seq_length)\<close> followed by \<^verbatim>\<open>F.cross_entropy\<close>: the second
  view raises when the labels do not have as many elements as there are logit rows.
\<close>

definition flat_cross_entropy ::
  "functional \<Rightarrow> real list list list \<Rightarrow> int list list \<Rightarrow> error + real" where
  "flat_cross_entropy F logits labels =
     (if length (concat labels) \<noteq> length (concat logits) then Inl RuntimeError
      else cross_entropy F (concat logits) (concat labels) (token_ignore F))"

text \<open>\<^verbatim>\<open>Jointformer.get_loss_lm\<close>: logits without the last position, labels without the first.\<close>

definition get_loss_lm ::
  "functional \<Rightarrow> jointformer \<Rightarrow> int list list \<Rightarrow> bool list list option \<Rightarrow> int list list option
     \<Rightarrow> error + model_output" where
  "get_loss_lm F self input_ids attn_mask input_labels =
     ebind (forward self input_ids ''generation'' attn_mask False) (\<lambda>outputs.
       case input_labels of
         None \<Rightarrow> Inr outputs
       | Some labs \<Rightarrow>
           (case logits_generation outputs of
              None \<Rightarrow> Inl TypeError
            | Some lg \<Rightarrow>
                ebind (flat_cross_entropy F (map butlast lg) (map tl labs)) (\<lambda>l.
                  Inr (outputs\<lparr>loss := Some l\<rparr>))))"

text \<open>\<^verbatim>\<open>Jointformer.get_loss_mlm\<close>: the MLM head over every position's embedding.\<close>

definition get_loss_mlm ::
  "functional \<Rightarrow> jointformer \<Rightarrow> int list list \<Rightarrow> bool list list option \<Rightarrow> int list list option
     \<Rightarrow> error + model_output" where
  "get_loss_mlm F self input_ids attn_mask input_labels =
     ebind (forward self input_ids ''mlm'' attn_mask False) (\<lambda>outputs0.
     ebind (apply_head (embedding_dim self) (mlm_head_weight self) (embeddings outputs0)) (\<lambda>lg.
       let outputs = outputs0\<lparr>logits_generation := Some lg\<rparr> in
       case input_labels of
         None \<Rightarrow> Inr outputs
       | Some labs \<Rightarrow>
           ebind (flat_cross_entropy F lg labs) (\<lambda>l. Inr (outputs\<lparr>loss := Some l\<rparr>))))"

text \<open>\<^verbatim>\<open>Jointformer.get_loss_physchem\<close>.\<close>

definition get_loss_physchem ::
  "functional \<Rightarrow> jointformer \<Rightarrow> int list list \<Rightarrow> bool list list option \<Rightarrow> real list list option
     \<Rightarrow> error + model_output" where
  "get_loss_physchem F self input_ids attn_mask properties =
     ebind (predict self input_ids attn_mask) (\<lambda>outputs.
       case properties of
         None \<Rightarrow> Inr outputs
       | Some props \<Rightarrow>
           (case logits_physchem outputs of
              None \<Rightarrow> Inl AttributeError
            | Some pc \<Rightarrow>
                ebind (mse_loss F (concat pc) (concat props)) (\<lambda>l.
                  Inr (outputs\<lparr>loss := Some l\<rparr>))))"

text \<open>\<^verbatim>\<open>Jointformer.get_loss_prediction\<close>.\<close>

definition get_loss_prediction ::
  "functional \<Rightarrow> jointformer \<Rightarrow> int list list \<Rightarrow> bool list list option \<Rightarrow> real list list option
     \<Rightarrow> error + model_output" where
  "get_loss_prediction F self input_ids attn_mask properties =
     ebind (predict self input_ids attn_mask) (\<lambda>outputs.
       case properties of
         None \<Rightarrow> Inr outputs
       | Some props \<Rightarrow>
           (case logits_prediction outputs of
              None \<Rightarrow> Inl AttributeError
            | Some pr \<Rightarrow>
                if prediction_task_type self = ''classification'' then
                  (case num_prediction_tasks self of
                     None \<Rightarrow> Inl AttributeError
                   | Some n \<Rightarrow>
                       if n = 1 then
                         ebind (cross_entropy_targets F pr props) (\<lambda>l.
                           Inr (outputs\<lparr>loss := Some l\<rparr>))
                       else if n > 1 then
                         ebind (binary_cross_entropy_with_logits F pr props) (\<lambda>l.
                           Inr (outputs\<lparr>loss := Some l\<rparr>))
                       else Inl ValueError)
                else if prediction_task_type self = ''regression'' then
                  ebind (mse_loss F (concat pr) (concat props)) (\<lambda>l.
                    Inr (outputs\<lparr>loss := Some l\<rparr>))
                else Inl ValueError))"

text \<open>\<^verbatim>\<open>Jointformer.get_loss\<close>: the task router.\<close>

definition get_loss ::
  "functional \<Rightarrow> jointformer \<Rightarrow> int list list \<Rightarrow> bool list list option \<Rightarrow> string
     \<Rightarrow> int list list option \<Rightarrow> real list list option \<Rightarrow> error + model_output" where
  "get_loss F self input_ids attn_mask task input_labels properties =
     (if task = ''lm'' \<or> task = ''generation'' then get_loss_lm F self input_ids attn_mask input_labels
      else if task = ''mlm'' then get_loss_mlm F self input_ids attn_mask input_labels
      else if task = ''prediction'' then get_loss_prediction F self input_ids attn_mask properties
      else if task = ''physchem'' then get_loss_physchem F self input_ids attn_mask properties
      else Inl ValueError)"

section \<open>Autoregressive generation\<close>

text \<open>
  The tokenizer collaborator, as far as \<^verbatim>\<open>generate\<close> reads it. \<open>generation_prefix = None\<close>
  is the attribute being absent.
\<close>

record tokenizer =
  generation_prefix :: "int list option"
  sep_token_id :: int
  pad_token_id :: int
  max_molecule_length :: int

text \<open>Python truthiness of an optional token id: \<^verbatim>\<open>None\<close> and \<^verbatim>\<open>0\<close> are false.\<close>

definition truthy :: "int option \<Rightarrow> bool" where
  "truthy t = (case t of None \<Rightarrow> False | Some v \<Rightarrow> v \<noteq> 0)"

text \<open>
  One row of \<^verbatim>\<open>v, _ = torch.topk(logits, min(top_k, logits.size(-1)))\<close> and
  \<^verbatim>\<open>logits[logits < v[:, [-1]]] = -float('Inf')\<close>: \<open>v\<close> holds the \<open>k\<close> largest values in
  descending order, its last entry is the threshold. \<^verbatim>\<open>topk\<close> raises on a negative
  \<open>k\<close>, and \<^verbatim>\<open>v[:, [-1]]\<close> raises when \<open>k = 0\<close>.
\<close>

definition crop_top_k :: "int \<Rightarrow> real list \<Rightarrow> error + score list" where
  "crop_top_k top_k row =
     (let k = min top_k (int (length row)) in
      if k < 0 then Inl RuntimeError
      else if k = 0 then Inl IndexError
      else (let v = take (nat k) (rev (sort row))
            in Inr (map (\<lambda>x. if x < last v then NegInf else Finite x) row)))"

text \<open>
  From the logits of the final position to the probabilities handed to
  \<^verbatim>\<open>torch.multinomial\<close>: division by the temperature, the optional top-k crop, softmax.
  \<^verbatim>\<open>torch.multinomial\<close> raises on a row that is not a distribution: with temperature
  \<open>0\<close> every row is NaN, and an empty row has nothing to sample.
\<close>

definition sampling_probs :: "real \<Rightarrow> int option \<Rightarrow> real list list \<Rightarrow> error + real list list" where
  "sampling_probs temperature top_k logits =
     ebind (case top_k of
              None \<Rightarrow> Inr (map (map (\<lambda>x. Finite (x / temperature))) logits)
            | Some k \<Rightarrow> emap (crop_top_k k) (map (map (\<lambda>x. x / temperature)) logits))
       (\<lambda>cropped.
          if temperature = 0 then Inl RuntimeError
          else if list_ex (\<lambda>row. sum_list (map exp_score row) = 0) cropped then Inl RuntimeError
          else Inr (map softmax cropped))"

text \<open>
  \<^verbatim>\<open>idx if idx.size(1) <= self.max_seq_len else idx[:, -self.max_seq_len:]\<close> on one row
  (\<^verbatim>\<open>[-0:]\<close> is the whole row).
\<close>

definition crop_context :: "nat \<Rightarrow> int list \<Rightarrow> int list" where
  "crop_context n row =
     (if length row \<le> n then row else if n = 0 then row else drop (length row - n) row)"

text \<open>
  One iteration of the loop of \<^verbatim>\<open>generate_single_token\<close>, on the running sequences and
  the \<^verbatim>\<open>eos_flag\<close> column. The outcome of \<^verbatim>\<open>torch.multinomial\<close> is an explicit input:
  \<open>draw b p\<close> is the index sampled for row \<open>b\<close> from the probability row \<open>p\<close>.
\<close>

definition sample_step ::
  "jointformer \<Rightarrow> real \<Rightarrow> int option \<Rightarrow> int option \<Rightarrow> int \<Rightarrow> (nat \<Rightarrow> real list \<Rightarrow> nat)
     \<Rightarrow> int list list \<times> bool list \<Rightarrow> error + int list list \<times> bool list" where
  "sample_step self temperature top_k eos_token_id pad draw st =
     (case st of (idx, eos_flag) \<Rightarrow>
     ebind (if truthy eos_token_id then
              (if [] \<in> set idx then Inl IndexError
               else Inr (map (\<lambda>(f, row). f \<or> (Some (last row) = eos_token_id \<or> last row = pad))
                          (zip eos_flag idx)))
            else Inr eos_flag) (\<lambda>eos_flag'.
     ebind (forward self (map (crop_context (max_seq_len self)) idx) ''generation'' None True)
       (\<lambda>outputs.
     ebind (case logits_generation outputs of
              None \<Rightarrow> Inl TypeError
            | Some lg \<Rightarrow> if [] \<in> set lg then Inl IndexError else Inr (map last lg)) (\<lambda>logits.
     ebind (sampling_probs temperature top_k logits) (\<lambda>probs.
       let sampled = map (\<lambda>(b, p). int (draw b p)) (zip [0 ..< length probs] probs);
           idx_next = map (\<lambda>(f, t). if f then pad else t) (zip eos_flag' sampled)
       in if length idx_next \<noteq> length idx then Inl RuntimeError
          else Inr (map (\<lambda>(row, t). row @ [t]) (zip idx idx_next), eos_flag'))))))"

text \<open>The \<^verbatim>\<open>for _ in range(max_new_tokens)\<close> loop; \<open>step\<close> counts the iterations done.\<close>

fun sample_loop ::
  "jointformer \<Rightarrow> real \<Rightarrow> int option \<Rightarrow> int option \<Rightarrow> int \<Rightarrow> (nat \<Rightarrow> nat \<Rightarrow> real list \<Rightarrow> nat)
     \<Rightarrow> nat \<Rightarrow> nat \<Rightarrow> int list list \<times> bool list \<Rightarrow> error + int list list \<times> bool list" where
  "sample_loop self temperature top_k eos_token_id pad draw 0 step st = Inr st"
| "sample_loop self temperature top_k eos_token_id pad draw (Suc n) step st =
     ebind (sample_step self temperature top_k eos_token_id pad (draw step) st)
       (sample_loop self temperature top_k eos_token_id pad draw n (Suc step))"

text \<open>\<^verbatim>\<open>Jointformer.generate_single_token\<close>.\<close>

definition generate_single_token ::
  "jointformer \<Rightarrow> int list list \<Rightarrow> int \<Rightarrow> real \<Rightarrow> int option \<Rightarrow> int option \<Rightarrow> int
     \<Rightarrow> (nat \<Rightarrow> nat \<Rightarrow> real list \<Rightarrow> nat) \<Rightarrow> error + int list list" where
  "generate_single_token self idx max_new_tokens temperature top_k eos_token_id pad draw =
     ebind (sample_loop self temperature top_k eos_token_id pad draw (nat max_new_tokens) 0
              (idx, replicate (length idx) False))
       (\<lambda>(idx', eos_flag). Inr idx')"

text \<open>
  The completion check of \<^verbatim>\<open>generate\<close> on one sequence: a sequence without the end
  token gets it written into its last position.
\<close>

definition force_eos :: "int \<Rightarrow> int list \<Rightarrow> error + int list" where
  "force_eos eos row =
     (if eos \<in> set row then Inr row
      else if row = [] then Inl IndexError
      else Inr (butlast row @ [eos]))"

text \<open>\<^verbatim>\<open>Jointformer.generate\<close> (the device argument has no counterpart here).\<close>

definition generate ::
  "jointformer \<Rightarrow> tokenizer \<Rightarrow> nat \<Rightarrow> real \<Rightarrow> int option \<Rightarrow> (nat \<Rightarrow> nat \<Rightarrow> real list \<Rightarrow> nat)
     \<Rightarrow> error + int list list" where
  "generate self tok batch_size temperature top_k draw =
     (case generation_prefix tok of
        None \<Rightarrow> Inl AssertionError
      | Some pre \<Rightarrow>
          ebind (generate_single_token self (replicate batch_size pre)
                   (max_molecule_length tok - 2) temperature top_k
                   (Some (sep_token_id tok)) (pad_token_id tok) draw)
            (emap (force_eos (sep_token_id tok))))"

text \<open>
  Outcomes of a call, as predicates: the call returned generation logits of the given
  shape; index \<open>j\<close> has positive probability in row \<open>b\<close> of the returned distribution, so
  that \<^verbatim>\<open>torch.multinomial\<close> can draw it.
\<close>

definition returns_logits_of_shape :: "error + model_output \<Rightarrow> nat \<Rightarrow> nat \<Rightarrow> nat \<Rightarrow> bool" where
  "returns_logits_of_shape r a b c =
     (case r of Inl _ \<Rightarrow> False
      | Inr out \<Rightarrow> (case logits_generation out of None \<Rightarrow> False | Some l \<Rightarrow> has_shape3 l a b c))"

definition possible_draw :: "error + real list list \<Rightarrow> nat \<Rightarrow> nat \<Rightarrow> bool" where
  "possible_draw r b j =
     (case r of Inl _ \<Rightarrow> False
      | Inr probs \<Rightarrow> b < length probs \<and> j < length (probs ! b) \<and> 0 < probs ! b ! j)"

section \<open>A small instance\<close>

text \<open>
  A model on which the definitions can be run: the body embeds every token as the zero
  vector of dimension 2, the vocabulary has 10 tokens and all head weights are zero, so
  every logit is \<open>0\<close> and the sampling distribution is uniform.
\<close>

definition toy_model :: jointformer where
  "toy_model =
     \<lparr>embedding_dim = 2, max_seq_len = 8, prediction_task_type = ''regression'',
      num_prediction_tasks = None,
      transformer_forward = (\<lambda>ids am causal.
         Inr \<lparr>body_embeddings = map (map (\<lambda>t. [0, 0])) ids, body_layer_embeddings = None\<rparr>),
      lm_head_weight = [[0, 0], [0, 0], [0, 0], [0, 0], [0, 0], [0, 0], [0, 0], [0, 0], [0, 0], [0, 0]],
      mlm_head_weight = [[0, 0], [0, 0], [0, 0], [0, 0], [0, 0], [0, 0], [0, 0], [0, 0], [0, 0], [0, 0]],
      physchem_head = (\<lambda>cls. Inr (map (\<lambda>e. [0]) cls)),
      prediction_head = (\<lambda>cls. Inr (map (\<lambda>e. [0]) cls))\<rparr>"

definition toy_functional :: functional where
  "toy_functional =
     \<lparr>cross_entropy = (\<lambda>logits labels ignore. Inr 0),
      cross_entropy_targets = (\<lambda>logits targets. Inr 0),
      binary_cross_entropy_with_logits = (\<lambda>logits targets. Inr 0),
      mse_loss = (\<lambda>xs ys. Inr 0),
      token_ignore = - 100\<rparr>"

definition toy_tokenizer :: tokenizer where
  "toy_tokenizer =
     \<lparr>generation_prefix = Some [7], sep_token_id = 2, pad_token_id = 0, max_molecule_length = 3\<rparr>"

section \<open>Hybrid self-attention\<close>

text \<open>
  The module state of \<^verbatim>\<open>HybridSelfAttention\<close>: the weights of the two linear layers
  (\<open>qkv_weight\<close> has \<open>3 * embed_dim\<close> rows, \<open>out_weight\<close> has \<open>embed_dim\<close> rows, each of
  length \<open>embed_dim\<close>), the flag \<open>flash\<close> saying which path runs, and \<open>block_size\<close>, the
  side of the buffer \<^verbatim>\<open>mask_causal\<close> that exists on the explicit path only. The random
  choices of the two dropout layers are fields as well: \<open>attn_keep b h i j\<close> and
  \<open>resid_keep b t c\<close> say whether the element at that index is kept.
\<close>

record hybrid_self_attention =
  qkv_weight :: "real list list"
  qkv_bias :: "real list option"
  out_weight :: "real list list"
  out_bias :: "real list option"
  num_heads :: nat
  embed_dim :: nat
  dropout :: real
  flash :: bool
  block_size :: nat
  training :: bool
  attn_keep :: "nat \<Rightarrow> nat \<Rightarrow> nat \<Rightarrow> nat \<Rightarrow> bool"
  resid_keep :: "nat \<Rightarrow> nat \<Rightarrow> nat \<Rightarrow> bool"

text \<open>\<^verbatim>\<open>nn.Linear\<close> applied to one vector.\<close>

definition linear :: "nat \<Rightarrow> real list list \<Rightarrow> real list option \<Rightarrow> real list \<Rightarrow> error + real list" where
  "linear in_features W bias x =
     (if length x \<noteq> in_features then Inl RuntimeError
      else Inr (case bias of
                  None \<Rightarrow> map (\<lambda>w. dot w x) W
                | Some bs \<Rightarrow> map (\<lambda>(w, b). dot w x + b) (zip W bs)))"

text \<open>
  One element under \<^verbatim>\<open>nn.Dropout(p)\<close>: the identity outside training and for \<open>p = 0\<close>,
  otherwise the element is dropped or rescaled by \<open>1 / (1 - p)\<close>.
\<close>

definition dropout_value :: "bool \<Rightarrow> real \<Rightarrow> bool \<Rightarrow> real \<Rightarrow> real" where
  "dropout_value train p keep x =
     (if train \<and> 0 < p then (if 1 \<le> p then 0 else if keep then x / (1 - p) else 0) else x)"

text \<open>\<^verbatim>\<open>torch.tril(torch.ones(block_size, block_size))\<close>.\<close>

definition mask_causal :: "nat \<Rightarrow> real list list" where
  "mask_causal n = map (\<lambda>i. map (\<lambda>j. if j \<le> i then 1 else 0) [0 ..< n]) [0 ..< n]"

text \<open>
  \<^verbatim>\<open>att.masked_fill(self.mask_causal[:, :, :T, :T] == 0, float('-inf'))\<close> on the \<open>T \<times> T\<close>
  scores of one head. The slice has side \<open>min T block_size\<close>; it must broadcast to
  \<open>T \<times> T\<close>, which beyond \<open>T \<le> block_size\<close> only a buffer of side 1 does (and then
  nothing is masked).
\<close>

definition causal_fill :: "nat \<Rightarrow> real list list \<Rightarrow> error + score list list" where
  "causal_fill bs att =
     (let T = length att in
      if T \<le> bs then
        Inr (map (\<lambda>(row, mrow). map (\<lambda>(a, mv). if mv = 0 then NegInf else Finite a) (zip row mrow))
               (zip att (map (take T) (take T (mask_causal bs)))))
      else if bs = 1 then Inr (map (map Finite) att)
      else Inl RuntimeError)"

text \<open>
  \<^verbatim>\<open>att.masked_fill(mask == 0, float('-inf'))\<close> on one head: the mask is given as its
  broadcast view, \<open>mk i j\<close> being the entry for query \<open>i\<close> and key \<open>j\<close>.
\<close>

definition mask_fill :: "(nat \<Rightarrow> nat \<Rightarrow> bool) \<Rightarrow> real list list \<Rightarrow> score list list" where
  "mask_fill mk att =
     map (\<lambda>(i, row). map (\<lambda>(j, a). if mk i j then Finite a else NegInf) (zip [0 ..< length row] row))
       (zip [0 ..< length att] att)"

text \<open>
  Softmax of one row of scores. A non-empty row that is \<open>-inf\<close> everywhere is NaN in
  every entry; \<open>None\<close> stands for such a row.
\<close>

definition softmax_nan :: "score list \<Rightarrow> real list option" where
  "softmax_nan row =
     (if row \<noteq> [] \<and> sum_list (map exp_score row) = 0 then None else Some (softmax row))"

text \<open>
  \<^verbatim>\<open>.view(B, T, self.num_heads, C // self.num_heads).transpose(1, 2)\<close> on one batch
  element: head \<open>h\<close> takes the columns \<open>h * hs ..< (h + 1) * hs\<close>.
\<close>

definition split_heads :: "nat \<Rightarrow> nat \<Rightarrow> real list list \<Rightarrow> real list list list" where
  "split_heads nh hs m = map (\<lambda>h. map (\<lambda>row. take hs (drop (h * hs) row)) m) [0 ..< nh]"

text \<open>\<^verbatim>\<open>(q @ k.transpose(-2, -1)) * (1.0 / math.sqrt(k.size(-1)))\<close> on one head.\<close>

definition attention_scores :: "nat \<Rightarrow> real list list \<Rightarrow> real list list \<Rightarrow> real list list" where
  "attention_scores hs q k = map (\<lambda>qi. map (\<lambda>kj. dot qi kj * (1 / sqrt (real hs))) k) q"

text \<open>
  Dropout on the attention weights of one head followed by \<^verbatim>\<open>@ v\<close>. A NaN row of
  weights gives a NaN row of outputs.
\<close>

definition weighted_values ::
  "bool \<Rightarrow> real \<Rightarrow> (nat \<Rightarrow> nat \<Rightarrow> bool) \<Rightarrow> real list option list \<Rightarrow> real list list
     \<Rightarrow> real list option list" where
  "weighted_values train p keep att v =
     map (\<lambda>(i, wrow). case wrow of
                         None \<Rightarrow> None
                       | Some w \<Rightarrow>
                           Some (map (dot (map (\<lambda>(j, a). dropout_value train p (keep i j) a)
                                            (zip [0 ..< length w] w)))
                                   (transpose v)))
       (zip [0 ..< length att] att)"

text \<open>
  \<^verbatim>\<open>F.scaled_dot_product_attention(q, k, v, dropout_p, is_causal, attn_mask)\<close> on one
  head, as the computation it fuses: scaled scores, the causal or the supplied mask,
  softmax, dropout with probability \<open>p\<close>, weighted sum of the values.
\<close>

definition scaled_dot_product_attention ::
  "nat \<Rightarrow> real \<Rightarrow> (nat \<Rightarrow> nat \<Rightarrow> bool) \<Rightarrow> bool \<Rightarrow> (nat \<Rightarrow> nat \<Rightarrow> bool) option
     \<Rightarrow> real list list \<Rightarrow> real list list \<Rightarrow> real list list \<Rightarrow> real list option list" where
  "scaled_dot_product_attention hs p keep is_causal mk q k v =
     (let att = attention_scores hs q k;
          filled = (if is_causal then mask_fill (\<lambda>i j. j \<le> i) att
                    else (case mk of None \<Rightarrow> map (map Finite) att | Some m \<Rightarrow> mask_fill m att))
      in weighted_values True p keep (map softmax_nan filled) v)"

text \<open>
  The explicit path on the heads of one batch element \<open>b\<close>: the scores, the fill chosen
  by the task, softmax, dropout and the weighted values. It returns the head outputs and
  the attention weights. A task other than \<^verbatim>\<open>'lm'\<close> and \<^verbatim>\<open>'mlm'\<close> falls through both
  tests and gets no fill.
\<close>

definition explicit_attention ::
  "hybrid_self_attention \<Rightarrow> string \<Rightarrow> (nat \<Rightarrow> nat \<Rightarrow> nat \<Rightarrow> nat \<Rightarrow> bool) option \<Rightarrow> nat \<Rightarrow> nat
     \<Rightarrow> real list list list \<Rightarrow> real list list list \<Rightarrow> real list list list
     \<Rightarrow> error + real list option list list \<times> real list option list list" where
  "explicit_attention self task msk hs b q k v =
     ebind (emap (\<lambda>h. let att = attention_scores hs (q ! h) (k ! h) in
                       if task = ''lm'' then causal_fill (block_size self) att
                       else if task = ''mlm'' \<and> msk \<noteq> None then Inr (mask_fill (the msk b h) att)
                       else Inr (map (map Finite) att))
              [0 ..< num_heads self]) (\<lambda>filled.
       let att = map (map softmax_nan) filled
       in Inr (map (\<lambda>h. weighted_values (training self) (dropout self) (attn_keep self b h)
                            (att ! h) (v ! h))
                 [0 ..< num_heads self],
               att))"

text \<open>
  \<^verbatim>\<open>y.transpose(1, 2).contiguous().view(B, T, C)\<close> on one batch element: position \<open>t\<close>
  gets the head outputs side by side. A NaN row in one head makes the projected row NaN.
\<close>

definition merge_heads :: "nat \<Rightarrow> nat \<Rightarrow> real list option list list \<Rightarrow> real list option list" where
  "merge_heads nh T y =
     map (\<lambda>t. if list_ex (\<lambda>h. y ! h ! t = None) [0 ..< nh] then None
               else Some (concat (map (\<lambda>h. the (y ! h ! t)) [0 ..< nh])))
       [0 ..< T]"

text \<open>\<^verbatim>\<open>self.resid_dropout(self.out_proj(y))\<close> on the row at position \<open>t\<close> of batch element \<open>b\<close>.\<close>

definition project_out ::
  "hybrid_self_attention \<Rightarrow> nat \<Rightarrow> nat \<Rightarrow> real list option \<Rightarrow> error + real list option" where
  "project_out self b t row =
     (case row of
        None \<Rightarrow> Inr None
      | Some r \<Rightarrow>
          ebind (linear (embed_dim self) (out_weight self) (out_bias self) r) (\<lambda>out.
            Inr (Some (map (\<lambda>(c, a). dropout_value (training self) (dropout self)
                                         (resid_keep self b t c) a)
                         (zip [0 ..< length out] out)))))"

text \<open>
  \<^verbatim>\<open>HybridSelfAttention.forward\<close>. The input has shape \<open>(B, T, C)\<close>; the optional mask is
  given as its broadcast view \<open>msk b h i j\<close>. The result is the output \<open>y\<close> (a row is
  \<open>None\<close> where it is NaN) and the attention weights \<open>att\<close>, which only the explicit path
  produces.
\<close>

definition hybrid_forward ::
  "hybrid_self_attention \<Rightarrow> real list list list \<Rightarrow> string
     \<Rightarrow> (nat \<Rightarrow> nat \<Rightarrow> nat \<Rightarrow> nat \<Rightarrow> bool) option
     \<Rightarrow> error + real list option list list \<times> real list option list list list option" where
  "hybrid_forward self x task msk =
     ebind (emap (emap (linear (embed_dim self) (qkv_weight self) (qkv_bias self))) x) (\<lambda>qkv.
     if num_heads self = 0 then Inl ZeroDivisionError
     else if embed_dim self mod num_heads self \<noteq> 0 then Inl RuntimeError
     else
       (let E = embed_dim self; nh = num_heads self; hs = E div nh; B = length qkv;
            q = map (\<lambda>m. split_heads nh hs (map (take E) m)) qkv;
            k = map (\<lambda>m. split_heads nh hs (map (\<lambda>r. take E (drop E r)) m)) qkv;
            v = map (\<lambda>m. split_heads nh hs (map (\<lambda>r. take E (drop (2 * E) r)) m)) qkv;
            p = (if training self then dropout self else 0)
        in
        ebind (if flash self then
                 (if task = ''lm'' then
                    Inr (map (\<lambda>b. map (\<lambda>h. scaled_dot_product_attention hs p (attn_keep self b h)
                                              True None (q ! b ! h) (k ! b ! h) (v ! b ! h))
                                     [0 ..< nh]) [0 ..< B],
                         None)
                  else if task = ''mlm'' then
                    Inr (map (\<lambda>b. map (\<lambda>h. scaled_dot_product_attention hs p (attn_keep self b h)
                                              False (map_option (\<lambda>m. m b h) msk)
                                              (q ! b ! h) (k ! b ! h) (v ! b ! h))
                                     [0 ..< nh]) [0 ..< B],
                         None)
                  else Inl ValueError)
               else if hs = 0 then Inl ZeroDivisionError
               else
                 ebind (emap (\<lambda>b. explicit_attention self task msk hs b (q ! b) (k ! b) (v ! b))
                          [0 ..< B]) (\<lambda>r. Inr (map fst r, Some (map snd r))))
          (\<lambda>(y, att).
             ebind (emap (\<lambda>b. emap (\<lambda>t. project_out self b t (merge_heads nh (length (x ! b)) (y ! b) ! t))
                                 [0 ..< length (x ! b)])
                      [0 ..< B])
               (\<lambda>out. Inr (out, att)))))"

text \<open>
  The attention weight from query position \<open>i\<close> onto key position \<open>j\<close> in head \<open>h\<close> of
  batch element \<open>b\<close>, where the call returned weights and that row is not NaN.
\<close>

definition attention_weight ::
  "error + real list option list list \<times> real list option list list list option
     \<Rightarrow> nat \<Rightarrow> nat \<Rightarrow> nat \<Rightarrow> nat \<Rightarrow> real option" where
  "attention_weight r b h i j =
     (case r of
        Inl _ \<Rightarrow> None
      | Inr (y, att) \<Rightarrow>
          (case att of
             None \<Rightarrow> None
           | Some a \<Rightarrow>
               if b < length a \<and> h < length (a ! b) \<and> i < length (a ! b ! h) then
                 (case a ! b ! h ! i of
                    None \<Rightarrow> None
                  | Some w \<Rightarrow> if j < length w then Some (w ! j) else None)
               else None))"

text \<open>A module with one head on embeddings of dimension 1, running the explicit path.\<close>

definition toy_attention :: hybrid_self_attention where
  "toy_attention =
     \<lparr>qkv_weight = [[1], [1], [1]], qkv_bias = None, out_weight = [[1]], out_bias = None,
      num_heads = 1, embed_dim = 1, dropout = 0, flash = False, block_size = 4,
      training = False, attn_keep = (\<lambda>b h i j. True), resid_keep = (\<lambda>b t c. True)\<rparr>"

section \<open>Trainer: evaluation\<close>

text \<open>
  What \<^verbatim>\<open>Trainer.estimate_loss\<close> reads. The model and the tokenizer are collaborators:
  \<open>batch_loss split k\<close> is the unsupervised loss of the \<open>k\<close>-th batch sampled from a split
  (\<^verbatim>\<open>get_batch\<close> followed by the model call), \<open>model_generate split k idx n\<close> the
  sequences generated at the \<open>k\<close>-th call, \<open>is_valid_smiles\<close> the validity flags of a batch
  of sequences.
\<close>

record evaluator =
  eval_iters :: int
  batch_size :: nat
  generate_token_id :: int
  tokenizer_max_molecule_length :: int
  batch_loss :: "string \<Rightarrow> nat \<Rightarrow> error + real"
  model_generate :: "string \<Rightarrow> nat \<Rightarrow> int list list \<Rightarrow> int \<Rightarrow> error + int list list"
  is_valid_smiles :: "int list list \<Rightarrow> bool list"

text \<open>A reported number; the mean of an empty tensor is NaN.\<close>

datatype metric = NaN | Value real

definition tensor_mean :: "real list \<Rightarrow> metric" where
  "tensor_mean xs = (if xs = [] then NaN else Value (sum_list xs / real (length xs)))"

text \<open>
  The body of \<^verbatim>\<open>for split in ['train', 'val']\<close>: the mean loss of the split, then the
  validity flags of \<open>eval_iters\<close> generated batches and \<^verbatim>\<open>sum(valid) / len(valid)\<close>, a true
  division of two Python integers.
\<close>

definition estimate_split ::
  "evaluator \<Rightarrow> string \<Rightarrow> (string \<rightharpoonup> metric) \<Rightarrow> error + (string \<rightharpoonup> metric)" where
  "estimate_split self split out =
     (if eval_iters self < 0 then Inl RuntimeError
      else
        ebind (emap (batch_loss self split) [0 ..< nat (eval_iters self)]) (\<lambda>losses.
        ebind (emap (\<lambda>k. ebind (model_generate self split k
                                   (replicate (batch_size self) [generate_token_id self])
                                   (tokenizer_max_molecule_length self))
                            (\<lambda>samples. Inr (is_valid_smiles self samples)))
                 [0 ..< nat (eval_iters self)]) (\<lambda>flags.
          let valid = concat flags in
          if length valid = 0 then Inl ZeroDivisionError
          else Inr (out(split \<mapsto> tensor_mean losses,
                        ''valid'' \<mapsto> Value (real (length (filter (\<lambda>f. f) valid))
                                               / real (length valid)))))))"

text \<open>
  \<^verbatim>\<open>Trainer.estimate_loss\<close>. The first component of the result is the mode the model is
  left in (\<open>True\<close> is training mode): \<^verbatim>\<open>self.model.train()\<close> is only reached when nothing
  raised.
\<close>

definition estimate_loss :: "evaluator \<Rightarrow> bool \<times> (error + (string \<rightharpoonup> metric))" where
  "estimate_loss self =
     (case ebind (estimate_split self ''train'' Map.empty) (estimate_split self ''val'') of
        Inl e \<Rightarrow> (False, Inl e)
      | Inr out \<Rightarrow> (True, Inr out))"

definition toy_evaluator :: evaluator where
  "toy_evaluator =
     \<lparr>eval_iters = 1, batch_size = 2, generate_token_id = 1, tokenizer_max_molecule_length = 3,
      batch_loss = (\<lambda>split k. Inr 1),
      model_generate = (\<lambda>split k idx n. Inr (map (\<lambda>row. row @ [5]) idx)),
      is_valid_smiles = (\<lambda>samples. map (\<lambda>row. True) samples)\<rparr>"

section \<open>Parameter storage and weight tying\<close>

text \<open>
  The parameters of a Jointformer as an object graph: \<open>storage\<close> maps an address to the
  matrix stored there, and each of the three modules refers to its weight by address.
\<close>

record parameters =
  storage :: "nat \<rightharpoonup> real list list"
  token_embedding_at :: nat
  lm_head_at :: nat
  mlm_head_at :: nat

text \<open>
  The part of \<^verbatim>\<open>Jointformer.__init__\<close> that creates and ties the three weights:
  the embedding table (created by the base class) and the two heads get a storage of
  their own, and with \<^verbatim>\<open>tie_weights\<close> the embedding and the MLM head are rebound to the
  parameter of the LM head. The initial values are arguments.
\<close>

definition init_parameters ::
  "bool \<Rightarrow> real list list \<Rightarrow> real list list \<Rightarrow> real list list \<Rightarrow> parameters" where
  "init_parameters tie_weights w_emb w_lm w_mlm =
     (let self = \<lparr>storage = [0 \<mapsto> w_emb, 1 \<mapsto> w_lm, 2 \<mapsto> w_mlm],
                  token_embedding_at = 0, lm_head_at = 1, mlm_head_at = 2\<rparr>
      in if tie_weights
         then self\<lparr>token_embedding_at := lm_head_at self, mlm_head_at := lm_head_at self\<rparr>
         else self)"

text \<open>Reading a weight, and overwriting the embedding table in place.\<close>

definition token_embedding_weight :: "parameters \<Rightarrow> real list list option" where
  "token_embedding_weight self = storage self (token_embedding_at self)"

definition lm_head_weight_of :: "parameters \<Rightarrow> real list list option" where
  "lm_head_weight_of self = storage self (lm_head_at self)"

definition mlm_head_weight_of :: "parameters \<Rightarrow> real list list option" where
  "mlm_head_weight_of self = storage self (mlm_head_at self)"

definition set_token_embedding :: "parameters \<Rightarrow> real list list \<Rightarrow> parameters" where
  "set_token_embedding self w = self\<lparr>storage := (storage self)(token_embedding_at self \<mapsto> w)\<rparr>"

text \<open>
  Modelled from the spec: \<^verbatim>\<open>TrainableModel.load_pretrained\<close>, to which
  \<^verbatim>\<open>Jointformer.load_pretrained\<close> delegates, and the saving of a checkpoint are not in
  the sources at hand. The spec has the persisted layout contain the full model parameter
  state, and reloading not duplicate storage: a saved state lists every named weight
  with its value, and loading writes each listed value into the storage that the
  receiving model's weight of that name refers to.
\<close>

definition state_dict :: "parameters \<Rightarrow> (string \<times> real list list) list" where
  "state_dict self =
     concat (map (\<lambda>(name, a). case storage self a of None \<Rightarrow> [] | Some w \<Rightarrow> [(name, w)])
               [(''token_embedding.weight'', token_embedding_at self),
                (''lm_head.weight'', lm_head_at self),
                (''mlm_head.weight'', mlm_head_at self)])"

definition load_entry :: "string \<times> real list list \<Rightarrow> parameters \<Rightarrow> parameters" where
  "load_entry e self =
     (case e of (name, w) \<Rightarrow>
        if name = ''token_embedding.weight''
        then self\<lparr>storage := (storage self)(token_embedding_at self \<mapsto> w)\<rparr>
        else if name = ''lm_head.weight''
        then self\<lparr>storage := (storage self)(lm_head_at self \<mapsto> w)\<rparr>
        else if name = ''mlm_head.weight''
        then self\<lparr>storage := (storage self)(mlm_head_at self \<mapsto> w)\<rparr>
        else self)"

definition load_pretrained :: "parameters \<Rightarrow> (string \<times> real list list) list \<Rightarrow> parameters" where
  "load_pretrained self saved = fold load_entry saved self"


section \<open>Properties of the learning-rate schedule\<close>

lemma get_lr_warm: "0 < warmup_iters c \<Longrightarrow> it < warmup_iters c \<Longrightarrow>
   get_lr c it = Inr (learning_rate c * of_int it / of_int (warmup_iters c))"
  by (simp add: get_lr_def)

lemma get_lr_cos: 
  assumes "warmup_iters c < lr_decay_iters c" "warmup_iters c \<le> it" "it \<le> lr_decay_iters c"
  shows "get_lr c it = Inr (min_lr c + 0.5 * (1 + cos (pi * (of_int (it - warmup_iters c) / of_int (lr_decay_iters c - warmup_iters c)))) * (learning_rate c - min_lr c))"
proof -
  have d: "(0::real) < of_int (lr_decay_iters c - warmup_iters c)" using assms by simp
  have a: "(0::real) \<le> of_int (it - warmup_iters c)" using assms by simp
  have b: "(of_int (it - warmup_iters c) :: real) \<le> of_int (lr_decay_iters c - warmup_iters c)"
    using assms by simp
  have r0: "(0::real) \<le> of_int (it - warmup_iters c) / of_int (lr_decay_iters c - warmup_iters c)"
    using a d by (rule divide_nonneg_pos)
  have r1: "(of_int (it - warmup_iters c) :: real) / of_int (lr_decay_iters c - warmup_iters c) \<le> 1"
    using b d by (simp only: divide_le_eq_1_pos)
  have n1: "\<not> it < warmup_iters c" using assms by simp
  have n2: "\<not> it > lr_decay_iters c" using assms by simp
  have n3: "lr_decay_iters c - warmup_iters c \<noteq> 0" using assms by simp
  show ?thesis
    unfolding get_lr_def Let_def using n1 n2 n3 r0 r1 by (simp only: if_False if_True simp_thms) simp
qed


lemma get_lr_boundary:
  assumes "warmup_iters c < lr_decay_iters c" 
  shows "get_lr c (warmup_iters c) = Inr (learning_rate c)"
  using assms by (simp add: get_lr_cos)

lemma get_lr_horizon:
  assumes "warmup_iters c < lr_decay_iters c" 
  shows "get_lr c (lr_decay_iters c) = Inr (min_lr c)"
  using assms by (simp add: get_lr_cos)

lemma get_lr_floor:
  assumes "warmup_iters c < lr_decay_iters c"  "lr_decay_iters c \<le> it"
  shows "get_lr c it = Inr (min_lr c)"
proof (cases "it = lr_decay_iters c")
  case True then show ?thesis using assms get_lr_horizon by simp
next
  case False then show ?thesis using assms by (simp add: get_lr_def)
qed

lemma warm_frac_mono:
  fixes l :: real
  assumes "0 < w" "0 \<le> l" "i \<le> j"
  shows "l * of_int i / of_int w \<le> l * of_int j / of_int (w::int)"
proof -
  have "l * of_int i \<le> l * of_int j" using assms by (intro mult_left_mono) simp_all
  moreover have "(0::real) \<le> of_int w" using assms by simp
  ultimately show ?thesis by (rule divide_right_mono)
qed

lemma get_lr_warm_mono:
  assumes "0 < warmup_iters c" "0 \<le> learning_rate c" "i \<le> j" "j \<le> warmup_iters c" "warmup_iters c < lr_decay_iters c"
  shows "returns_le (get_lr c i) (get_lr c j)"
proof (cases "j < warmup_iters c")
  case True
  then have "i < warmup_iters c" using assms by simp
  then show ?thesis using assms True warm_frac_mono[of "warmup_iters c" "learning_rate c" i j]
    by (simp add: get_lr_warm returns_le_def)
next
  case False
  then have j: "j = warmup_iters c" using assms by simp
  show ?thesis
  proof (cases "i < warmup_iters c")
    case True
    have "learning_rate c * of_int i / of_int (warmup_iters c) \<le> learning_rate c * of_int (warmup_iters c) / of_int (warmup_iters c)"
      using assms True by (intro warm_frac_mono) simp_all
    then have "learning_rate c * of_int i / of_int (warmup_iters c) \<le> learning_rate c"
      using assms by simp
    then show ?thesis using assms True j by (simp add: get_lr_warm get_lr_boundary returns_le_def)
  next
    case False
    then have "i = warmup_iters c" using assms j by simp
    then show ?thesis using assms j by (simp add: get_lr_boundary returns_le_def)
  qed
qed

lemma get_lr_cos_anti:
  assumes "warmup_iters c < lr_decay_iters c" "min_lr c \<le> learning_rate c"
      "warmup_iters c \<le> i" "i \<le> j" "j \<le> lr_decay_iters c"
  shows "returns_le (get_lr c j) (get_lr c i)"
proof -
  define d where "d = (of_int (lr_decay_iters c - warmup_iters c) :: real)"
  define ri where "ri = (of_int (i - warmup_iters c) :: real) / d"
  define rj where "rj = (of_int (j - warmup_iters c) :: real) / d"
  have d: "0 < d" using assms by (simp add: d_def)
  have "(of_int (i - warmup_iters c) :: real) \<le> of_int (j - warmup_iters c)" using assms by simp
  then have r: "ri \<le> rj" unfolding ri_def rj_def using d by (simp add: divide_right_mono)
  have r0: "0 \<le> ri" unfolding ri_def using assms d by simp
  have "(of_int (j - warmup_iters c) :: real) \<le> d" unfolding d_def using assms by simp
  then have r1: "rj \<le> 1" unfolding rj_def using d by simp
  have p0: "0 \<le> pi * ri" using r0 by simp
  have p1: "pi * ri \<le> pi * rj" using r by (intro mult_left_mono) simp_all
  have "pi * rj \<le> pi * 1" using r1 by (intro mult_left_mono) simp_all
  then have p2: "pi * rj \<le> pi" by simp
  have cs: "cos (pi * rj) \<le> cos (pi * ri)"
    using p0 p1 p2 by (rule cos_monotone_0_pi_le)
  have "0 \<le> learning_rate c - min_lr c" using assms by simp
  then have "(1 + cos (pi * rj)) * (learning_rate c - min_lr c) \<le> (1 + cos (pi * ri)) * (learning_rate c - min_lr c)"
    using cs by (intro mult_right_mono) simp_all
  moreover have "i \<le> lr_decay_iters c" "warmup_iters c \<le> j" using assms by simp_all
  ultimately show ?thesis using assms(1,3,5)
    by (simp add: get_lr_cos returns_le_def ri_def rj_def d_def)
qed


text \<open>
  Claim C3 as stated does not hold: its preconditions admit a negative peak rate, and
  then the warmup ramp \<open>learning_rate * it / warmup_iters\<close> falls. With
  \<open>learning_rate = -1\<close>, \<open>min_lr = -2\<close>, \<open>warmup_iters = 2\<close>, \<open>lr_decay_iters = 4\<close>
  the rate is \<open>0\<close> at iteration 0 and \<open>-1/2\<close> at iteration 1.
\<close>

theorem get_lr_negative_peak_counterexample:
  "0 < warmup_iters \<lparr>learning_rate = -1, warmup_iters = 2, lr_decay_iters = 4, min_lr = -2\<rparr>
   \<and> warmup_iters \<lparr>learning_rate = -1, warmup_iters = 2, lr_decay_iters = 4, min_lr = -2\<rparr>
       < lr_decay_iters \<lparr>learning_rate = -1, warmup_iters = 2, lr_decay_iters = 4, min_lr = -2\<rparr>
   \<and> min_lr \<lparr>learning_rate = -1, warmup_iters = 2, lr_decay_iters = 4, min_lr = -2\<rparr>
       \<le> learning_rate \<lparr>learning_rate = -1, warmup_iters = 2, lr_decay_iters = 4, min_lr = -2\<rparr>
   \<and> get_lr \<lparr>learning_rate = -1, warmup_iters = 2, lr_decay_iters = 4, min_lr = -2\<rparr> 0 = Inr 0
   \<and> get_lr \<lparr>learning_rate = -1, warmup_iters = 2, lr_decay_iters = 4, min_lr = -2\<rparr> 1 = Inr (- 1 / 2)
   \<and> \<not> returns_le (get_lr \<lparr>learning_rate = -1, warmup_iters = 2, lr_decay_iters = 4, min_lr = -2\<rparr> 0)
                     (get_lr \<lparr>learning_rate = -1, warmup_iters = 2, lr_decay_iters = 4, min_lr = -2\<rparr> 1)"
  by (simp add: get_lr_def returns_le_def)

text \<open>
  Claim C3, amended by the precondition \<open>0 \<le> learning_rate\<close>. Under
  \<open>0 < warmup_iters < lr_decay_iters\<close>, \<open>min_lr \<le> learning_rate\<close> and
  \<open>0 \<le> learning_rate\<close>, \<^verbatim>\<open>_get_lr\<close> returns a rate at every iteration index and
  \<^item> at \<open>it = warmup_iters\<close> the returned rate is \<open>learning_rate\<close>, which is the value of the
    warmup expression \<open>learning_rate * it / warmup_iters\<close> there: the two pieces meet;
  \<^item> on \<open>[0, warmup_iters]\<close> it is non-decreasing;
  \<^item> on \<open>[warmup_iters, lr_decay_iters]\<close> it is non-increasing;
  \<^item> for \<open>it \<ge> lr_decay_iters\<close> it is exactly \<open>min_lr\<close>.
  The result depends on the four configuration fields and \<open>it\<close> only.
\<close>

theorem get_lr_schedule:
  assumes "0 < warmup_iters c" and "warmup_iters c < lr_decay_iters c"
    and "min_lr c \<le> learning_rate c" and "0 \<le> learning_rate c"
  shows "get_lr c (warmup_iters c)
           = Inr (learning_rate c * of_int (warmup_iters c) / of_int (warmup_iters c))
       \<and> get_lr c (warmup_iters c) = Inr (learning_rate c)
       \<and> (0 \<le> i \<and> i \<le> j \<and> j \<le> warmup_iters c \<longrightarrow> returns_le (get_lr c i) (get_lr c j))
       \<and> (warmup_iters c \<le> i \<and> i \<le> j \<and> j \<le> lr_decay_iters c
              \<longrightarrow> returns_le (get_lr c j) (get_lr c i))
       \<and> (lr_decay_iters c \<le> it \<longrightarrow> get_lr c it = Inr (min_lr c))"
proof -
  have b: "get_lr c (warmup_iters c) = Inr (learning_rate c)"
    using assms(2) by (rule get_lr_boundary)
  have w: "learning_rate c * of_int (warmup_iters c) / of_int (warmup_iters c) = learning_rate c"
    using assms(1) by simp
  have up: "returns_le (get_lr c i) (get_lr c j)" if "i \<le> j" "j \<le> warmup_iters c"
    using assms(1) assms(4) that assms(2) by (rule get_lr_warm_mono)
  have down: "returns_le (get_lr c j) (get_lr c i)"
    if "warmup_iters c \<le> i" "i \<le> j" "j \<le> lr_decay_iters c"
    using assms(2) assms(3) that by (rule get_lr_cos_anti)
  have fl: "get_lr c it = Inr (min_lr c)" if "lr_decay_iters c \<le> it"
    using assms(2) that by (rule get_lr_floor)
  show ?thesis using b w up down fl by simp
qed

theorem get_lr_schedule_witness:
  "get_lr \<lparr>learning_rate = 1, warmup_iters = 2, lr_decay_iters = 4, min_lr = 1 / 10\<rparr> 2 = Inr 1
   \<and> returns_le (get_lr \<lparr>learning_rate = 1, warmup_iters = 2, lr_decay_iters = 4, min_lr = 1 / 10\<rparr> 0)
                (get_lr \<lparr>learning_rate = 1, warmup_iters = 2, lr_decay_iters = 4, min_lr = 1 / 10\<rparr> 1)
   \<and> returns_le (get_lr \<lparr>learning_rate = 1, warmup_iters = 2, lr_decay_iters = 4, min_lr = 1 / 10\<rparr> 3)
                (get_lr \<lparr>learning_rate = 1, warmup_iters = 2, lr_decay_iters = 4, min_lr = 1 / 10\<rparr> 2)
   \<and> get_lr \<lparr>learning_rate = 1, warmup_iters = 2, lr_decay_iters = 4, min_lr = 1 / 10\<rparr> 9 = Inr (1 / 10)"
  using get_lr_schedule [where c = "\<lparr>learning_rate = 1, warmup_iters = 2, lr_decay_iters = 4, min_lr = 1 / 10\<rparr>"
                            and i = 0 and j = 1 and it = 9]
        get_lr_schedule [where c = "\<lparr>learning_rate = 1, warmup_iters = 2, lr_decay_iters = 4, min_lr = 1 / 10\<rparr>"
                            and i = 2 and j = 3 and it = 9]
  by simp

section \<open>Sequencing lemmas\<close>

lemma ebind_Inl [simp]: "ebind (Inl e) f = Inl e"
  by (simp add: ebind_def)

lemma ebind_Inr [simp]: "ebind (Inr x) f = f x"
  by (simp add: ebind_def)

lemma ebind_eq_Inr: "ebind m f = Inr y \<longleftrightarrow> (\<exists>x. m = Inr x \<and> f x = Inr y)"
  by (cases m) simp_all

lemma emap_Inr_all2: "emap f xs = Inr ys \<Longrightarrow> list_all2 (\<lambda>x y. f x = Inr y) xs ys"
proof (induction xs arbitrary: ys)
  case Nil
  then show ?case by simp
next
  case (Cons x xs)
  then show ?case by (auto simp: ebind_eq_Inr)
qed

lemma emap_returns: "(\<And>x. x \<in> set xs \<Longrightarrow> f x = Inr (g x)) \<Longrightarrow> emap f xs = Inr (map g xs)"
  by (induction xs) simp_all

lemma emap_Inr_member:
  assumes "emap f xs = Inr ys" and "y \<in> set ys"
  shows "\<exists>x \<in> set xs. f x = Inr y"
proof -
  have "list_all2 (\<lambda>x y. f x = Inr y) xs ys" using assms(1) by (rule emap_Inr_all2)
  then have len: "length xs = length ys" and nth: "\<And>i. i < length ys \<Longrightarrow> f (xs ! i) = Inr (ys ! i)"
    by (simp_all add: list_all2_conv_all_nth)
  obtain i where i: "i < length ys" "y = ys ! i" using assms(2) by (auto simp: in_set_conv_nth)
  have "xs ! i \<in> set xs" using i(1) len by simp
  moreover have "f (xs ! i) = Inr y" using nth[OF i(1)] i(2) by simp
  ultimately show ?thesis by blast
qed

lemma emap_Inr_length:
  assumes "emap f xs = Inr ys"
  shows "length ys = length xs"
  using emap_Inr_all2 [OF assms] by (simp add: list_all2_lengthD)

lemma emap_Inr_nth:
  assumes "emap f xs = Inr ys" and "i < length xs"
  shows "f (xs ! i) = Inr (ys ! i)"
  using emap_Inr_all2 [OF assms(1)] assms(2) by (simp add: list_all2_conv_all_nth)

lemma emap_total:
  assumes "\<And>x. x \<in> set xs \<Longrightarrow> \<exists>y. f x = Inr y"
  shows "\<exists>ys. emap f xs = Inr ys"
  using assms
proof (induction xs)
  case Nil
  then show ?case by simp
next
  case (Cons a xs)
  obtain y where y: "f a = Inr y" using Cons.prems [of a] by auto
  obtain ys where ys: "emap f xs = Inr ys" using Cons.IH Cons.prems by auto
  show ?case using y ys by simp
qed

lemma emap_ebind_Inr:
  assumes "emap (\<lambda>k. ebind (g k) (\<lambda>s. Inr (h s))) xs = Inr ys"
  shows "\<exists>ss. emap g xs = Inr ss \<and> ys = map h ss"
  using assms
proof (induction xs arbitrary: ys)
  case Nil
  then show ?case by simp
next
  case (Cons a xs)
  obtain y ys' where y: "ebind (g a) (\<lambda>s. Inr (h s)) = Inr y"
    and t: "emap (\<lambda>k. ebind (g k) (\<lambda>s. Inr (h s))) xs = Inr ys'" and e: "ys = y # ys'"
    using Cons.prems by (auto simp: ebind_eq_Inr)
  obtain s where s: "g a = Inr s" "y = h s" using y by (auto simp: ebind_eq_Inr)
  obtain ss where ss: "emap g xs = Inr ss" "ys' = map h ss" using Cons.IH [OF t] by blast
  show ?case using s ss e by simp
qed

section \<open>Properties of the Jointformer forward pass and loss routing\<close>

lemma apply_head_returns:
  assumes "list_all (\<lambda>m. list_all (\<lambda>r. length r = E) m) t"
  shows "apply_head E W t = Inr (map (map (\<lambda>x. map (\<lambda>w. dot w x) W)) t)"
  unfolding apply_head_def
proof (rule emap_returns)
  fix m assume "m \<in> set t"
  then have "list_all (\<lambda>r. length r = E) m" using assms by (simp add: list_all_iff)
  then show "emap (linear_nobias E W) m = Inr (map (\<lambda>x. map (\<lambda>w. dot w x) W) m)"
    by (intro emap_returns) (simp add: linear_nobias_def list_all_iff)
qed

lemma has_shape3_head:
  assumes "has_shape3 t a b E"
  shows "has_shape3 (map (map (\<lambda>x. map (\<lambda>w. dot w x) W)) t) a b (length W)"
  using assms by (simp add: has_shape3_def list_all_iff)

lemma has_shape3_last:
  assumes "has_shape3 t a b E" and "0 < b"
  shows "has_shape3 (map (\<lambda>e. [last e]) t) a 1 E"
  using assms by (auto simp: has_shape3_def list_all_iff)

lemma has_shape3_nonempty:
  assumes "has_shape3 t a b E" and "0 < b"
  shows "[] \<notin> set t"
  using assms by (auto simp: has_shape3_def list_all_iff)

lemma has_shape3_rows:
  assumes "has_shape3 t a b E"
  shows "list_all (\<lambda>m. list_all (\<lambda>r. length r = E) m) t"
  using assms by (auto simp: has_shape3_def list_all_iff)

lemma forward_generation_shape:
  assumes "transformer_forward m ids None True = Inr out"
    and "has_shape3 (body_embeddings out) a b (embedding_dim m)" and "0 < b"
    and "length (lm_head_weight m) = v"
  shows "returns_logits_of_shape (forward m ids ''generation'' am False) a b v
       \<and> returns_logits_of_shape (forward m ids ''generation'' am True) a 1 v"
proof -
  have ne: "[] \<notin> set (body_embeddings out)" using assms(2,3) by (rule has_shape3_nonempty)
  have l: "has_shape3 (map (\<lambda>e. [last e]) (body_embeddings out)) a 1 (embedding_dim m)"
    using assms(2,3) by (rule has_shape3_last)
  have full: "returns_logits_of_shape (forward m ids ''generation'' am False) a b v"
    using assms(1,4) ne has_shape3_head[OF assms(2), of "lm_head_weight m"]
    by (simp add: forward_def get_cls_embeddings_def get_lm_embeddings_def
        apply_head_returns[OF has_shape3_rows[OF assms(2)]] returns_logits_of_shape_def)
  have nxt: "returns_logits_of_shape (forward m ids ''generation'' am True) a 1 v"
    using assms(1,4) ne has_shape3_head[OF l, of "lm_head_weight m"]
    by (simp add: forward_def get_cls_embeddings_def get_lm_embeddings_def
        apply_head_returns[OF has_shape3_rows[OF l]] returns_logits_of_shape_def)
  show ?thesis using full nxt by simp
qed

lemma forward_unknown_task:
  assumes "task \<notin> {''generation'', ''physchem'', ''prediction'', ''mlm''}"
  shows "forward m ids task am nto = Inl ValueError"
  using assms by (simp add: forward_def)

lemma get_loss_unknown_task:
  assumes "task \<notin> {''lm'', ''generation'', ''mlm'', ''prediction'', ''physchem''}"
  shows "get_loss F m ids am task labs props = Inl ValueError"
  using assms by (simp add: get_loss_def)

lemma forward_loss_unset:
  assumes "forward m ids task am nto = Inr out"
  shows "loss out = None"
  using assms
  by (auto simp: forward_def ebind_eq_Inr split: if_splits)

lemma forward_causal_fields:
  assumes "forward m ids ''generation'' am nto = Inr out"
  shows "logits_generation out \<noteq> None \<and> logits_physchem out = None \<and> logits_prediction out = None"
  using assms
  by (auto simp: forward_def ebind_eq_Inr)

lemma forward_noncausal_fields:
  assumes "forward m ids task am nto = Inr out" and "task \<noteq> ''generation''"
  shows "logits_generation out = None \<and> logits_physchem out \<noteq> None \<and> logits_prediction out \<noteq> None"
  using assms
  by (auto simp: forward_def ebind_eq_Inr split: if_splits)

lemma get_loss_lm_fields:
  assumes "get_loss_lm F m ids am labs = Inr out"
  shows "logits_generation out \<noteq> None \<and> logits_physchem out = None \<and> logits_prediction out = None"
proof (cases "forward m ids ''generation'' am False")
  case (Inl e)
  then show ?thesis using assms by (simp add: get_loss_lm_def)
next
  case (Inr o1)
  then have f: "logits_generation o1 \<noteq> None \<and> logits_physchem o1 = None \<and> logits_prediction o1 = None"
    by (rule forward_causal_fields)
  show ?thesis
  proof (cases labs)
    case None
    then show ?thesis using assms Inr f by (simp add: get_loss_lm_def)
  next
    case (Some ls)
    obtain lg where lg: "logits_generation o1 = Some lg" using f by auto
    show ?thesis
    proof (cases "flat_cross_entropy F (map butlast lg) (map tl ls)")
      case (Inl e)
      then show ?thesis using assms Inr Some lg by (simp add: get_loss_lm_def)
    next
      case (Inr l)
      then have "out = o1\<lparr>loss := Some l\<rparr>"
        using assms \<open>forward m ids ''generation'' am False = Inr o1\<close> Some lg
        by (simp add: get_loss_lm_def)
      then show ?thesis using f by simp
    qed
  qed
qed

lemma get_loss_physchem_fields:
  assumes "get_loss_physchem F m ids am props = Inr out"
  shows "logits_generation out = None \<and> logits_physchem out \<noteq> None \<and> logits_prediction out \<noteq> None"
proof (cases "forward m ids ''prediction'' am False")
  case (Inl e)
  then show ?thesis using assms by (simp add: get_loss_physchem_def predict_def)
next
  case (Inr o1)
  then have f: "logits_generation o1 = None \<and> logits_physchem o1 \<noteq> None \<and> logits_prediction o1 \<noteq> None"
    by (rule forward_noncausal_fields) simp
  show ?thesis
  proof (cases props)
    case None
    then show ?thesis using assms Inr f by (simp add: get_loss_physchem_def predict_def)
  next
    case (Some ps)
    obtain pc where pc: "logits_physchem o1 = Some pc" using f by auto
    show ?thesis
    proof (cases "mse_loss F (concat pc) (concat ps)")
      case (Inl e)
      then show ?thesis using assms Inr Some pc by (simp add: get_loss_physchem_def predict_def)
    next
      case (Inr l)
      then have "out = o1\<lparr>loss := Some l\<rparr>"
        using assms \<open>forward m ids ''prediction'' am False = Inr o1\<close> Some pc
        by (simp add: get_loss_physchem_def predict_def)
      then show ?thesis using f by simp
    qed
  qed
qed

lemma get_loss_mlm_fields:
  assumes "get_loss_mlm F m ids am labs = Inr out"
  shows "logits_generation out \<noteq> None \<and> logits_physchem out \<noteq> None \<and> logits_prediction out \<noteq> None"
proof (cases "forward m ids ''mlm'' am False")
  case (Inl e)
  then show ?thesis using assms by (simp add: get_loss_mlm_def)
next
  case (Inr o1)
  then have f: "logits_generation o1 = None \<and> logits_physchem o1 \<noteq> None \<and> logits_prediction o1 \<noteq> None"
    by (rule forward_noncausal_fields) simp
  show ?thesis
  proof (cases "apply_head (embedding_dim m) (mlm_head_weight m) (embeddings o1)")
    case (Inl e)
    then show ?thesis using assms Inr by (simp add: get_loss_mlm_def)
  next
    case hd: (Inr lg)
    show ?thesis
    proof (cases labs)
      case None
      then have "out = o1\<lparr>logits_generation := Some lg\<rparr>"
        using assms Inr hd by (simp add: get_loss_mlm_def)
      then show ?thesis using f by simp
    next
      case (Some ls)
      show ?thesis
      proof (cases "flat_cross_entropy F lg ls")
        case (Inl e)
        then show ?thesis using assms Inr hd Some by (simp add: get_loss_mlm_def)
      next
        case ce: (Inr l)
        then have "out = o1\<lparr>logits_generation := Some lg, loss := Some l\<rparr>"
          using assms Inr hd Some by (simp add: get_loss_mlm_def)
        then show ?thesis using f by simp
      qed
    qed
  qed
qed

text \<open>
  Claim C10 as stated does not hold: \<^verbatim>\<open>Jointformer.forward\<close> does not accept the tag
  \<^verbatim>\<open>'lm'\<close>. On a batch of 2 sequences of length 4 over a vocabulary of 10 tokens the
  call raises \<^verbatim>\<open>ValueError\<close> and returns no logits.
\<close>

theorem forward_lm_tag_counterexample:
  "forward toy_model [[1, 2, 3, 4], [5, 6, 7, 8]] ''lm'' None False = Inl ValueError
   \<and> forward toy_model [[1, 2, 3, 4], [5, 6, 7, 8]] ''lm'' None True = Inl ValueError
   \<and> length (lm_head_weight toy_model) = 10"
  by (simp add: forward_def toy_model_def)

text \<open>
  Claim C10, amended to the tag \<^verbatim>\<open>'generation'\<close>, under which \<^verbatim>\<open>Jointformer.forward\<close>
  runs the causal language-modelling path. For a batch of 2 sequences of length 4 (the
  transformer body returns embeddings of shape \<open>(2, 4, embedding_dim)\<close>) and a vocabulary
  of 10 tokens (the LM head has 10 rows), the forward pass returns generation logits of
  shape \<open>(2, 4, 10)\<close> when \<^verbatim>\<open>next_token_only=False\<close> and of shape \<open>(2, 1, 10)\<close> when
  \<^verbatim>\<open>next_token_only=True\<close>.
\<close>

theorem forward_generation_logits_shape:
  assumes "transformer_forward m ids None True = Inr out"
    and "has_shape3 (body_embeddings out) 2 4 (embedding_dim m)"
    and "length (lm_head_weight m) = 10"
  shows "returns_logits_of_shape (forward m ids ''generation'' am False) 2 4 10
       \<and> returns_logits_of_shape (forward m ids ''generation'' am True) 2 1 10"
  using assms(1) assms(2) _ assms(3) by (rule forward_generation_shape) simp

theorem forward_generation_logits_shape_witness:
  "returns_logits_of_shape
     (forward toy_model [[1, 2, 3, 4], [5, 6, 7, 8]] ''generation'' None False) 2 4 10
   \<and> returns_logits_of_shape
       (forward toy_model [[1, 2, 3, 4], [5, 6, 7, 8]] ''generation'' None True) 2 1 10"
proof -
  have b: "transformer_forward toy_model [[1, 2, 3, 4], [5, 6, 7, 8]] None True
             = Inr \<lparr>body_embeddings = [[[0, 0], [0, 0], [0, 0], [0, 0]], [[0, 0], [0, 0], [0, 0], [0, 0]]],
                    body_layer_embeddings = None\<rparr>"
    by (simp add: toy_model_def)
  have s: "has_shape3 (body_embeddings
              \<lparr>body_embeddings = [[[0, 0], [0, 0], [0, 0], [0, 0]], [[0, 0], [0, 0], [0, 0], [0, 0]]],
               body_layer_embeddings = None\<rparr>) 2 4 (embedding_dim toy_model)"
    by (simp add: has_shape3_def toy_model_def)
  have v: "length (lm_head_weight toy_model) = 10"
    by (simp add: toy_model_def)
  show ?thesis using forward_generation_logits_shape [OF b s v, of None] by simp
qed

text \<open>
  Claim C4 as stated does not hold: fields that are not relevant to the requested task
  are populated too. A call of \<^verbatim>\<open>get_loss\<close> with task \<^verbatim>\<open>'mlm'\<close> returns an output in
  which \<open>logits_physchem\<close> and \<open>logits_prediction\<close> are both set, and a call with task
  \<^verbatim>\<open>'physchem'\<close> returns one in which \<open>logits_prediction\<close> is set.
\<close>

theorem get_loss_mlm_populates_heads_counterexample:
  "(case get_loss toy_functional toy_model [[1, 2]] None ''mlm'' None None of
      Inl e \<Rightarrow> False
    | Inr out \<Rightarrow> logits_physchem out = Some [[0]] \<and> logits_prediction out = Some [[0]])
   \<and> (case get_loss toy_functional toy_model [[1, 2]] None ''physchem'' None None of
      Inl e \<Rightarrow> False
    | Inr out \<Rightarrow> logits_prediction out = Some [[0]])"
  by (simp add: get_loss_def get_loss_mlm_def get_loss_physchem_def predict_def forward_def
      toy_model_def get_cls_embeddings_def get_lm_embeddings_def apply_head_def linear_nobias_def)

text \<open>
  Claim C4, amended: the causal path populates the generation logits only, every other
  path populates both the physchem and the prediction logits whatever the task.
  \<^item> \<^verbatim>\<open>get_loss\<close> with task \<^verbatim>\<open>'physchem'\<close> populates \<open>logits_physchem\<close> (and
    \<open>logits_prediction\<close>) and leaves \<open>logits_generation\<close> unset;
  \<^item> \<^verbatim>\<open>get_loss\<close> with task \<^verbatim>\<open>'lm'\<close> populates \<open>logits_generation\<close> and leaves
    \<open>logits_prediction\<close> and \<open>logits_physchem\<close> unset;
  \<^item> \<^verbatim>\<open>get_loss\<close> with task \<^verbatim>\<open>'mlm'\<close> populates all three;
  \<^item> \<^verbatim>\<open>Jointformer.forward\<close> always returns \<open>loss\<close> unset.
\<close>

theorem get_loss_field_routing:
  "(get_loss F m ids am ''physchem'' labs props = Inr out1 \<longrightarrow>
      logits_physchem out1 \<noteq> None \<and> logits_prediction out1 \<noteq> None
      \<and> logits_generation out1 = None)
   \<and> (get_loss F m ids am ''lm'' labs props = Inr out2 \<longrightarrow>
      logits_generation out2 \<noteq> None \<and> logits_prediction out2 = None
      \<and> logits_physchem out2 = None)
   \<and> (get_loss F m ids am ''mlm'' labs props = Inr out3 \<longrightarrow>
      logits_generation out3 \<noteq> None \<and> logits_prediction out3 \<noteq> None
      \<and> logits_physchem out3 \<noteq> None)
   \<and> (forward m ids task am nto = Inr out4 \<longrightarrow> loss out4 = None)"
proof -
  have p: "logits_physchem out1 \<noteq> None \<and> logits_prediction out1 \<noteq> None
           \<and> logits_generation out1 = None"
    if "get_loss F m ids am ''physchem'' labs props = Inr out1"
    using that get_loss_physchem_fields [of F m ids am props out1] by (simp add: get_loss_def)
  have l: "logits_generation out2 \<noteq> None \<and> logits_prediction out2 = None
           \<and> logits_physchem out2 = None"
    if "get_loss F m ids am ''lm'' labs props = Inr out2"
    using that get_loss_lm_fields [of F m ids am labs out2] by (simp add: get_loss_def)
  have ml: "logits_generation out3 \<noteq> None \<and> logits_prediction out3 \<noteq> None
           \<and> logits_physchem out3 \<noteq> None"
    if "get_loss F m ids am ''mlm'' labs props = Inr out3"
    using that get_loss_mlm_fields [of F m ids am labs out3] by (simp add: get_loss_def)
  have f: "loss out4 = None" if "forward m ids task am nto = Inr out4"
    using that by (rule forward_loss_unset)
  show ?thesis using p l ml f by blast
qed

theorem get_loss_field_routing_witness:
  "(case get_loss toy_functional toy_model [[1, 2]] None ''physchem'' None (Some [[0]]) of
      Inl e \<Rightarrow> False
    | Inr out \<Rightarrow> logits_physchem out \<noteq> None \<and> logits_prediction out \<noteq> None
                  \<and> logits_generation out = None)
   \<and> (case get_loss toy_functional toy_model [[1, 2]] None ''lm'' (Some [[1, 2]]) None of
      Inl e \<Rightarrow> False
    | Inr out \<Rightarrow> logits_generation out \<noteq> None \<and> logits_prediction out = None
                  \<and> logits_physchem out = None)
   \<and> (case get_loss toy_functional toy_model [[1, 2]] None ''mlm'' (Some [[1, 2]]) None of
      Inl e \<Rightarrow> False
    | Inr out \<Rightarrow> logits_generation out \<noteq> None \<and> logits_prediction out \<noteq> None
                  \<and> logits_physchem out \<noteq> None)
   \<and> (case forward toy_model [[1, 2]] ''prediction'' None False of
      Inl e \<Rightarrow> False
    | Inr out \<Rightarrow> loss out = None)"
proof -
  obtain out1 where h1:
    "get_loss toy_functional toy_model [[1, 2]] None ''physchem'' None (Some [[0]]) = Inr out1"
    by (simp add: get_loss_def get_loss_physchem_def predict_def forward_def toy_model_def
        toy_functional_def get_cls_embeddings_def get_lm_embeddings_def)
  obtain out2 where h2:
    "get_loss toy_functional toy_model [[1, 2]] None ''lm'' (Some [[1, 2]]) None = Inr out2"
    by (simp add: get_loss_def get_loss_lm_def forward_def toy_model_def toy_functional_def
        get_cls_embeddings_def get_lm_embeddings_def apply_head_def linear_nobias_def
        flat_cross_entropy_def)
  obtain out3 where h3:
    "get_loss toy_functional toy_model [[1, 2]] None ''mlm'' (Some [[1, 2]]) None = Inr out3"
    by (simp add: get_loss_def get_loss_mlm_def forward_def toy_model_def toy_functional_def
        get_cls_embeddings_def get_lm_embeddings_def apply_head_def linear_nobias_def
        flat_cross_entropy_def)
  obtain out4 where h4: "forward toy_model [[1, 2]] ''prediction'' None False = Inr out4"
    by (simp add: forward_def toy_model_def get_cls_embeddings_def get_lm_embeddings_def)
  show ?thesis
    using get_loss_field_routing [of toy_functional toy_model "[[1, 2]]" None None "Some [[0]]" out1]
          get_loss_field_routing [where F = toy_functional and m = toy_model and ids = "[[1, 2]]"
             and am = None and labs = "Some [[1, 2]]" and props = None
             and ?out2.0 = out2 and ?out3.0 = out3 and ?out4.0 = out4
             and task = "''prediction''" and nto = False]
          h1 h2 h3 h4
    by simp
qed

section \<open>Properties of generation\<close>

lemma force_eos_contains:
  assumes "force_eos eos row = Inr r"
  shows "eos \<in> set r"
  using assms by (auto simp: force_eos_def split: if_splits)

text \<open>
  Claim C5. Every batch returned by \<^verbatim>\<open>Jointformer.generate\<close>, whatever the maximum
  length, the temperature, the top-k setting and the sampled tokens, has the end token
  \<open>sep_token_id\<close> in each of its sequences, hence at or before the final position: a
  sequence that never produced one has it written into its last position.
\<close>

theorem generate_contains_eos:
  assumes "generate m tok n temperature top_k draw = Inr idx"
  shows "list_all (\<lambda>row. sep_token_id tok \<in> set row \<and>
                         (\<exists>p < length row. row ! p = sep_token_id tok)) idx"
proof -
  obtain pre where "generation_prefix tok = Some pre"
    using assms by (cases "generation_prefix tok") (simp_all add: generate_def)
  then obtain raw where e: "emap (force_eos (sep_token_id tok)) raw = Inr idx"
    using assms by (auto simp: generate_def ebind_eq_Inr)
  have "sep_token_id tok \<in> set row" if r: "row \<in> set idx" for row
  proof -
    obtain r0 where "force_eos (sep_token_id tok) r0 = Inr row"
      using emap_Inr_member [OF e r] by blast
    then show ?thesis by (rule force_eos_contains)
  qed
  then show ?thesis by (auto simp: list_all_iff in_set_conv_nth)
qed

theorem generate_contains_eos_witness:
  "generate toy_model toy_tokenizer 2 1 None (\<lambda>step b p. 5) = Inr [[7, 2], [7, 2]]
   \<and> list_all (\<lambda>row. sep_token_id toy_tokenizer \<in> set row \<and>
                      (\<exists>p < length row. row ! p = sep_token_id toy_tokenizer)) [[7, 2], [7, 2]]"
proof -
  have h: "generate toy_model toy_tokenizer 2 1 None (\<lambda>step b p. 5) = Inr [[7, 2], [7, 2]]"
    by (simp add: generate_def toy_tokenizer_def generate_single_token_def sample_step_def
        truthy_def crop_context_def forward_def toy_model_def get_cls_embeddings_def
        get_lm_embeddings_def apply_head_def linear_nobias_def sampling_probs_def
        exp_score_def softmax_def dot_def force_eos_def eval_nat_numeral)
  show ?thesis using generate_contains_eos [OF h] h by simp
qed

section \<open>Properties of the attention module\<close>

text \<open>
  Claim C1 at the explicit (non-fused) path of \<^verbatim>\<open>HybridSelfAttention.forward\<close> with the
  task tag \<^verbatim>\<open>'prediction'\<close>: the call returns. On two positions with equal scores every
  query attends to both keys with weight \<open>1/2\<close>, position 0 onto position 1 included:
  the unknown tag has silently selected unmasked bidirectional attention. The fused path
  raises \<^verbatim>\<open>ValueError\<close> on the same input.
\<close>

theorem hybrid_forward_unknown_task_explicit_path:
  "hybrid_forward toy_attention [[[0], [0]]] ''prediction'' None
     = Inr ([[Some [0], Some [0]]], Some [[[Some [1 / 2, 1 / 2], Some [1 / 2, 1 / 2]]]])
   \<and> hybrid_forward (toy_attention\<lparr>flash := True\<rparr>) [[[0], [0]]] ''prediction'' None
     = Inl ValueError"
  by (simp add: hybrid_forward_def toy_attention_def linear_def dot_def split_heads_def
      explicit_attention_def attention_scores_def softmax_nan_def softmax_def exp_score_def
      weighted_values_def dropout_value_def merge_heads_def project_out_def Let_def
      eval_nat_numeral)

section \<open>Properties of the evaluation loop\<close>

lemma estimate_split_Inr:
  assumes "estimate_split self split out0 = Inr out"
  obtains losses flags where
    "emap (batch_loss self split) [0 ..< nat (eval_iters self)] = Inr losses"
    and "emap (\<lambda>k. ebind (model_generate self split k
                             (replicate (batch_size self) [generate_token_id self])
                             (tokenizer_max_molecule_length self))
                      (\<lambda>samples. Inr (is_valid_smiles self samples)))
           [0 ..< nat (eval_iters self)] = Inr flags"
    and "concat flags \<noteq> []"
    and "out = out0(split \<mapsto> tensor_mean losses,
                   ''valid'' \<mapsto> Value (real (length (filter (\<lambda>f. f) (concat flags)))
                                          / real (length (concat flags))))"
  using assms
  by (auto simp: estimate_split_def ebind_eq_Inr Let_def split: if_splits)

text \<open>
  When a pass returns, every generation call of the pass returned, the validity flags of
  the generated batches are not empty, and the reported score is the fraction of
  \<open>True\<close> among them.
\<close>

lemma estimate_split_valid:
  assumes "estimate_split self split out0 = Inr out"
  shows "\<exists>samples.
           length samples = nat (eval_iters self)
         \<and> (\<forall>k < nat (eval_iters self).
               model_generate self split k (replicate (batch_size self) [generate_token_id self])
                 (tokenizer_max_molecule_length self) = Inr (samples ! k))
         \<and> concat (map (is_valid_smiles self) samples) \<noteq> []
         \<and> out ''valid''
             = Some (Value (real (length (filter (\<lambda>f. f) (concat (map (is_valid_smiles self) samples))))
                            / real (length (concat (map (is_valid_smiles self) samples)))))"
proof -
  obtain losses flags where
    f: "emap (\<lambda>k. ebind (model_generate self split k
                             (replicate (batch_size self) [generate_token_id self])
                             (tokenizer_max_molecule_length self))
                      (\<lambda>samples. Inr (is_valid_smiles self samples)))
           [0 ..< nat (eval_iters self)] = Inr flags"
    and n: "concat flags \<noteq> []"
    and o: "out = out0(split \<mapsto> tensor_mean losses,
                   ''valid'' \<mapsto> Value (real (length (filter (\<lambda>f. f) (concat flags)))
                                          / real (length (concat flags))))"
    using assms by (rule estimate_split_Inr)
  obtain samples where
    g: "emap (\<lambda>k. model_generate self split k
                     (replicate (batch_size self) [generate_token_id self])
                     (tokenizer_max_molecule_length self))
          [0 ..< nat (eval_iters self)] = Inr samples"
    and fl: "flags = map (is_valid_smiles self) samples"
    using emap_ebind_Inr [OF f] by blast
  have l: "length samples = nat (eval_iters self)"
    using emap_Inr_length [OF g] by simp
  have k: "model_generate self split k (replicate (batch_size self) [generate_token_id self])
             (tokenizer_max_molecule_length self) = Inr (samples ! k)"
    if "k < nat (eval_iters self)" for k
    using emap_Inr_nth [OF g, of k] that by simp
  have v: "out ''valid''
             = Some (Value (real (length (filter (\<lambda>f. f) (concat (map (is_valid_smiles self) samples))))
                            / real (length (concat (map (is_valid_smiles self) samples)))))"
    unfolding o fl by simp
  show ?thesis using l k n v unfolding fl by blast
qed

text \<open>
  When the losses and the generation calls of the first pass return but no validity flag
  is collected, the pass raises on the division.
\<close>

lemma estimate_split_empty:
  assumes "0 \<le> eval_iters self"
    and "\<forall>k < nat (eval_iters self). \<exists>l. batch_loss self split k = Inr l"
    and "length samples = nat (eval_iters self)"
    and "\<forall>k < nat (eval_iters self).
           model_generate self split k (replicate (batch_size self) [generate_token_id self])
             (tokenizer_max_molecule_length self) = Inr (samples ! k)"
    and "concat (map (is_valid_smiles self) samples) = []"
  shows "estimate_split self split out0 = Inl ZeroDivisionError"
proof -
  obtain losses where l: "emap (batch_loss self split) [0 ..< nat (eval_iters self)] = Inr losses"
    using emap_total [of "[0 ..< nat (eval_iters self)]" "batch_loss self split"] assms(2) by auto
  have "emap (\<lambda>k. ebind (model_generate self split k
                             (replicate (batch_size self) [generate_token_id self])
                             (tokenizer_max_molecule_length self))
                      (\<lambda>samples. Inr (is_valid_smiles self samples)))
           [0 ..< nat (eval_iters self)]
          = Inr (map (\<lambda>k. is_valid_smiles self (samples ! k)) [0 ..< nat (eval_iters self)])"
    by (rule emap_returns) (simp add: assms(4))
  moreover have "map (\<lambda>k. is_valid_smiles self (samples ! k)) [0 ..< nat (eval_iters self)]
                   = map (is_valid_smiles self) samples"
    using assms(3) by (intro nth_equalityI) simp_all
  ultimately have f: "emap (\<lambda>k. ebind (model_generate self split k
                             (replicate (batch_size self) [generate_token_id self])
                             (tokenizer_max_molecule_length self))
                      (\<lambda>samples. Inr (is_valid_smiles self samples)))
           [0 ..< nat (eval_iters self)] = Inr (map (is_valid_smiles self) samples)"
    by simp
  show ?thesis using assms(1,5) l f by (simp add: estimate_split_def)
qed

text \<open>
  Claim C7 as stated does not hold: \<^verbatim>\<open>estimate_loss\<close> divides by \<^verbatim>\<open>len(valid)\<close> without a
  guard. With \<open>eval_iters = 0\<close> no sample is evaluated and the call raises
  \<^verbatim>\<open>ZeroDivisionError\<close> (leaving the model in evaluation mode) instead of reporting \<open>0\<close>.
\<close>

theorem estimate_loss_empty_counterexample:
  "estimate_loss (toy_evaluator\<lparr>eval_iters := 0\<rparr>) = (False, Inl ZeroDivisionError)"
  by (simp add: estimate_loss_def estimate_split_def toy_evaluator_def)

text \<open>
  Claim C7, amended: the validity score is not guarded.
  \<^item> When no sample is evaluated (\<open>eval_iters = 0\<close>), \<^verbatim>\<open>estimate_loss\<close> fails with a
    division-by-zero error and leaves the model in evaluation mode.
  \<^item> More generally, when the losses and the generation calls of the \<^verbatim>\<open>'train'\<close> pass
    return but \<^verbatim>\<open>is_valid_smiles\<close> yields no flag for the generated batches, it fails in
    the same way.
  \<^item> Whenever it returns, the model is back in training mode, every generation call of
    the \<^verbatim>\<open>'val'\<close> pass returned a batch, the flags that \<^verbatim>\<open>is_valid_smiles\<close> gives for
    these batches are not empty, and the reported score is the number of \<open>True\<close> flags
    divided by the number of flags (the score of the \<^verbatim>\<open>'train'\<close> pass is overwritten).
\<close>

theorem estimate_loss_validity_score:
  "(eval_iters self = 0 \<longrightarrow> estimate_loss self = (False, Inl ZeroDivisionError))
   \<and> (0 \<le> eval_iters self
        \<and> (\<forall>k < nat (eval_iters self). \<exists>l. batch_loss self ''train'' k = Inr l)
        \<and> length generated = nat (eval_iters self)
        \<and> (\<forall>k < nat (eval_iters self).
              model_generate self ''train'' k (replicate (batch_size self) [generate_token_id self])
                (tokenizer_max_molecule_length self) = Inr (generated ! k))
        \<and> concat (map (is_valid_smiles self) generated) = []
        \<longrightarrow> estimate_loss self = (False, Inl ZeroDivisionError))
   \<and> (estimate_loss self = (tr, Inr out) \<longrightarrow>
        tr \<and> (\<exists>samples.
                 length samples = nat (eval_iters self)
               \<and> (\<forall>k < nat (eval_iters self).
                     model_generate self ''val'' k
                       (replicate (batch_size self) [generate_token_id self])
                       (tokenizer_max_molecule_length self) = Inr (samples ! k))
               \<and> concat (map (is_valid_smiles self) samples) \<noteq> []
               \<and> out ''valid''
                   = Some (Value (real (length (filter (\<lambda>f. f)
                                                  (concat (map (is_valid_smiles self) samples))))
                                  / real (length (concat (map (is_valid_smiles self) samples)))))))"
proof -
  have z: "estimate_loss self = (False, Inl ZeroDivisionError)" if "eval_iters self = 0"
    using that by (simp add: estimate_loss_def estimate_split_def)
  have e: "estimate_loss self = (False, Inl ZeroDivisionError)"
    if "0 \<le> eval_iters self"
      and "\<forall>k < nat (eval_iters self). \<exists>l. batch_loss self ''train'' k = Inr l"
      and "length generated = nat (eval_iters self)"
      and "\<forall>k < nat (eval_iters self).
              model_generate self ''train'' k (replicate (batch_size self) [generate_token_id self])
                (tokenizer_max_molecule_length self) = Inr (generated ! k)"
      and "concat (map (is_valid_smiles self) generated) = []"
    using estimate_split_empty [OF that, of Map.empty] by (simp add: estimate_loss_def)
  have r: "tr \<and> (\<exists>samples.
                 length samples = nat (eval_iters self)
               \<and> (\<forall>k < nat (eval_iters self).
                     model_generate self ''val'' k
                       (replicate (batch_size self) [generate_token_id self])
                       (tokenizer_max_molecule_length self) = Inr (samples ! k))
               \<and> concat (map (is_valid_smiles self) samples) \<noteq> []
               \<and> out ''valid''
                   = Some (Value (real (length (filter (\<lambda>f. f)
                                                  (concat (map (is_valid_smiles self) samples))))
                                  / real (length (concat (map (is_valid_smiles self) samples))))))"
    if h: "estimate_loss self = (tr, Inr out)"
  proof -
    obtain out1 where s: "estimate_split self ''val'' out1 = Inr out" and t: "tr"
      using h by (auto simp: estimate_loss_def ebind_eq_Inr split: sum.splits)
    show ?thesis using estimate_split_valid [OF s] t by simp
  qed
  show ?thesis using z e r by blast
qed

theorem estimate_loss_validity_score_witness:
  "estimate_loss (toy_evaluator\<lparr>eval_iters := 0\<rparr>) = (False, Inl ZeroDivisionError)
   \<and> estimate_loss (toy_evaluator\<lparr>batch_size := 0\<rparr>) = (False, Inl ZeroDivisionError)
   \<and> estimate_loss (toy_evaluator\<lparr>is_valid_smiles := (\<lambda>samples. [True, False])\<rparr>)
       = (True, Inr [''train'' \<mapsto> Value 1, ''valid'' \<mapsto> Value (1 / 2), ''val'' \<mapsto> Value 1])
   \<and> [''train'' \<mapsto> Value 1, ''valid'' \<mapsto> Value (1 / 2), ''val'' \<mapsto> Value (1 :: real)] ''valid''
       = Some (Value (1 / 2))"
proof -
  have a: "eval_iters (toy_evaluator\<lparr>eval_iters := 0\<rparr>) = 0" by simp
  have b: "0 \<le> eval_iters (toy_evaluator\<lparr>batch_size := 0\<rparr>)
        \<and> (\<forall>k < nat (eval_iters (toy_evaluator\<lparr>batch_size := 0\<rparr>)).
              \<exists>l. batch_loss (toy_evaluator\<lparr>batch_size := 0\<rparr>) ''train'' k = Inr l)
        \<and> length [[] :: int list list] = nat (eval_iters (toy_evaluator\<lparr>batch_size := 0\<rparr>))
        \<and> (\<forall>k < nat (eval_iters (toy_evaluator\<lparr>batch_size := 0\<rparr>)).
              model_generate (toy_evaluator\<lparr>batch_size := 0\<rparr>) ''train'' k
                (replicate (batch_size (toy_evaluator\<lparr>batch_size := 0\<rparr>))
                   [generate_token_id (toy_evaluator\<lparr>batch_size := 0\<rparr>)])
                (tokenizer_max_molecule_length (toy_evaluator\<lparr>batch_size := 0\<rparr>))
              = Inr ([[]] ! k))
        \<and> concat (map (is_valid_smiles (toy_evaluator\<lparr>batch_size := 0\<rparr>)) [[]]) = []"
    by (simp add: toy_evaluator_def)
  have c: "estimate_loss (toy_evaluator\<lparr>is_valid_smiles := (\<lambda>samples. [True, False])\<rparr>)
             = (True, Inr [''train'' \<mapsto> Value 1, ''valid'' \<mapsto> Value (1 / 2), ''val'' \<mapsto> Value 1])"
    by (simp add: estimate_loss_def estimate_split_def toy_evaluator_def tensor_mean_def
        eval_nat_numeral fun_upd_twist)
  have 1: "estimate_loss (toy_evaluator\<lparr>eval_iters := 0\<rparr>) = (False, Inl ZeroDivisionError)"
    using estimate_loss_validity_score [of "toy_evaluator\<lparr>eval_iters := 0\<rparr>"] a by blast
  have 2: "estimate_loss (toy_evaluator\<lparr>batch_size := 0\<rparr>) = (False, Inl ZeroDivisionError)"
    using estimate_loss_validity_score [of "toy_evaluator\<lparr>batch_size := 0\<rparr>" "[[]]"] b by blast
  have 3: "[''train'' \<mapsto> Value 1, ''valid'' \<mapsto> Value (1 / 2), ''val'' \<mapsto> Value (1 :: real)] ''valid''
             = Some (Value (1 / 2))"
    using estimate_loss_validity_score
            [of "toy_evaluator\<lparr>is_valid_smiles := (\<lambda>samples. [True, False])\<rparr>" _ True
                "[''train'' \<mapsto> Value 1, ''valid'' \<mapsto> Value (1 / 2), ''val'' \<mapsto> Value 1]"] c
    by simp
  show ?thesis using 1 2 c 3 by blast
qed

section \<open>Properties of weight tying\<close>

lemma load_pretrained_refs:
  "token_embedding_at (load_pretrained p saved) = token_embedding_at p
   \<and> lm_head_at (load_pretrained p saved) = lm_head_at p
   \<and> mlm_head_at (load_pretrained p saved) = mlm_head_at p"
  unfolding load_pretrained_def
  by (induction saved arbitrary: p) (auto simp: load_entry_def)

text \<open>
  Without tying the three weights are separate storages: overwriting the embedding table
  of a freshly built model leaves the LM head as it was.
\<close>

lemma untied_weights_are_separate:
  "lm_head_weight_of (set_token_embedding (init_parameters False we wl wm) w) = Some wl"
  by (simp add: lm_head_weight_of_def set_token_embedding_def init_parameters_def)

text \<open>
  Claim C8. In a model built with \<^verbatim>\<open>tie_weights\<close> the embedding table, the LM head and
  the MLM head refer to one storage. Saving such a model and loading the saved state
  into a model built with \<^verbatim>\<open>tie_weights\<close> keeps the three references equal, gives all
  three weights the saved value, and a value written into the embedding table after the
  load is the value the LM head and the MLM head read.
\<close>

theorem weight_tying_survives_reload:
  "token_embedding_at (init_parameters True we wl wm) = lm_head_at (init_parameters True we wl wm)
   \<and> mlm_head_at (init_parameters True we wl wm) = lm_head_at (init_parameters True we wl wm)
   \<and> token_embedding_at (load_pretrained (init_parameters True we wl wm)
                            (state_dict (init_parameters True we' wl' wm')))
       = lm_head_at (load_pretrained (init_parameters True we wl wm)
                            (state_dict (init_parameters True we' wl' wm')))
   \<and> mlm_head_at (load_pretrained (init_parameters True we wl wm)
                            (state_dict (init_parameters True we' wl' wm')))
       = lm_head_at (load_pretrained (init_parameters True we wl wm)
                            (state_dict (init_parameters True we' wl' wm')))
   \<and> lm_head_weight_of (load_pretrained (init_parameters True we wl wm)
                            (state_dict (init_parameters True we' wl' wm'))) = Some wl'
   \<and> token_embedding_weight (load_pretrained (init_parameters True we wl wm)
                            (state_dict (init_parameters True we' wl' wm'))) = Some wl'
   \<and> lm_head_weight_of (set_token_embedding
                          (load_pretrained (init_parameters True we wl wm)
                             (state_dict (init_parameters True we' wl' wm'))) w) = Some w
   \<and> mlm_head_weight_of (set_token_embedding
                          (load_pretrained (init_parameters True we wl wm)
                             (state_dict (init_parameters True we' wl' wm'))) w) = Some w"
proof -
  have t: "token_embedding_at (init_parameters True we wl wm) = 1
           \<and> lm_head_at (init_parameters True we wl wm) = 1
           \<and> mlm_head_at (init_parameters True we wl wm) = 1"
    by (simp add: init_parameters_def)
  have v: "storage (load_pretrained (init_parameters True we wl wm)
                      (state_dict (init_parameters True we' wl' wm'))) 1 = Some wl'"
    by (simp add: load_pretrained_def state_dict_def init_parameters_def load_entry_def)
  show ?thesis
    using t v
    by (simp add: load_pretrained_refs lm_head_weight_of_def mlm_head_weight_of_def
        token_embedding_weight_def set_token_embedding_def)
qed

section \<open>Properties of top-k sampling\<close>

lemma exp_score_nonneg: "0 \<le> exp_score s"
  by (cases s) (simp_all add: exp_score_def)

lemma sum_list_exp_score_ge:
  assumes "s \<in> set row"
  shows "exp_score s \<le> sum_list (map exp_score row)"
  using assms
proof (induction row)
  case Nil
  then show ?case by simp
next
  case (Cons a row)
  have n: "0 \<le> sum_list (map exp_score row)"
    by (rule sum_list_nonneg) (auto simp: exp_score_nonneg)
  show ?case
  proof (cases "s = a")
    case True
    then show ?thesis using n by simp
  next
    case False
    then have "exp_score s \<le> sum_list (map exp_score row)" using Cons by simp
    then show ?thesis using exp_score_nonneg [of a] by simp
  qed
qed

lemma sum_list_exp_score_pos:
  assumes "Finite x \<in> set row"
  shows "0 < sum_list (map exp_score row)"
proof -
  have "0 < exp_score (Finite x)" by (simp add: exp_score_def)
  then show ?thesis using sum_list_exp_score_ge [OF assms] by linarith
qed

lemma softmax_nth:
  assumes "j < length row"
  shows "softmax row ! j = exp_score (row ! j) / sum_list (map exp_score row)"
  using assms by (simp add: softmax_def)

lemma crop_top_1:
  assumes "row \<noteq> []"
  shows "crop_top_k 1 row
           = Inr (map (\<lambda>x. if x < last (sort row) then NegInf else Finite x) row)"
proof -
  have k: "min 1 (int (length row)) = 1" using assms by (cases row) simp_all
  have s: "sort row \<noteq> []" using assms by (metis length_0_conv length_sort)
  then have "rev (sort row) \<noteq> []" by simp
  then have "take 1 (rev (sort row)) = [hd (rev (sort row))]"
    by (cases "rev (sort row)") simp_all
  then have "last (take 1 (rev (sort row))) = last (sort row)"
    using s by (simp add: hd_rev)
  then show ?thesis using k by (simp add: crop_top_k_def)
qed

lemma last_sort_greatest:
  assumes "x \<in> set row"
  shows "x \<le> last (sort row)"
proof -
  have "x \<in> set (sort row)" using assms by simp
  then obtain i where i: "i < length (sort row)" "x = sort row ! i"
    unfolding in_set_conv_nth by blast
  have ne: "sort row \<noteq> []" using i(1) by (cases "sort row") simp_all
  have "sort row ! i \<le> sort row ! (length (sort row) - 1)"
    using i(1) by (intro sorted_nth_mono) simp_all
  then show ?thesis using i(2) ne by (simp add: last_conv_nth)
qed

lemma last_sort_member:
  assumes "row \<noteq> []"
  shows "last (sort row) \<in> set row"
proof -
  have "sort row \<noteq> []" using assms by (metis length_0_conv length_sort)
  then have "last (sort row) \<in> set (sort row)" by (rule last_in_set)
  then show ?thesis by simp
qed

lemma crop_top_1_keeps_a_logit:
  assumes "row \<noteq> []"
  shows "Finite (last (sort row))
           \<in> set (map (\<lambda>x. if x < last (sort row) then NegInf else Finite x) row)"
proof -
  have "last (sort row) \<in> set row" using assms by (rule last_sort_member)
  then show ?thesis by (auto simp: image_iff intro!: bexI [of _ "last (sort row)"])
qed

lemma unique_max_is_last_sort:
  assumes "m < length row" and "\<forall>j < length row. j \<noteq> m \<longrightarrow> row ! j < row ! m"
  shows "last (sort row) = row ! m"
proof -
  have ne: "row \<noteq> []" using assms(1) by auto
  obtain j where j: "j < length row" "last (sort row) = row ! j"
    using last_sort_member [OF ne] by (auto simp: in_set_conv_nth)
  have "row ! m \<le> last (sort row)" using assms(1) by (intro last_sort_greatest) simp
  then have "j = m" using assms(2) j by force
  then show ?thesis using j by simp
qed

lemma sampling_probs_top_1:
  assumes "temperature \<noteq> 0" and "[] \<notin> set logits"
  shows "sampling_probs temperature (Some 1) logits
           = Inr (map (\<lambda>row. softmax (map (\<lambda>x. if x < last (sort row) then NegInf else Finite x) row))
                    (map (map (\<lambda>x. x / temperature)) logits))"
proof -
  define scaled where "scaled = map (map (\<lambda>x. x / temperature)) logits"
  define crop where "crop = (\<lambda>row :: real list. map (\<lambda>x. if x < last (sort row) then NegInf else Finite x) row)"
  have ne: "row \<noteq> []" if "row \<in> set scaled" for row
    using that assms(2) by (auto simp: scaled_def)
  have c: "emap (crop_top_k 1) scaled = Inr (map crop scaled)"
    by (rule emap_returns) (simp add: crop_top_1 ne crop_def)
  have "sum_list (map exp_score c) \<noteq> 0" if c: "c \<in> set (map crop scaled)" for c
  proof -
    obtain row where r: "row \<in> set scaled" "c = crop row" using c by auto
    have "Finite (last (sort row)) \<in> set (crop row)"
      unfolding crop_def using ne [OF r(1)] by (rule crop_top_1_keeps_a_logit)
    then have "0 < sum_list (map exp_score (crop row))" by (rule sum_list_exp_score_pos)
    then show ?thesis using r(2) by simp
  qed
  then have "\<not> list_ex (\<lambda>row. sum_list (map exp_score row) = 0) (map crop scaled)"
    unfolding list_ex_iff by blast
  then have "sampling_probs temperature (Some 1) logits = Inr (map softmax (map crop scaled))"
    using assms(1) c by (simp add: sampling_probs_def scaled_def)
  then show ?thesis by (simp add: crop_def scaled_def comp_def)
qed

text \<open>
  Claim C9 as stated does not hold: the crop keeps every logit that is not below the
  largest one, so tied maxima all survive \<open>top_k = 1\<close>. On the fixed logit vector
  \<open>[0, 0]\<close> with temperature 1 both tokens have probability \<open>1/2\<close>, and the draw decides.
\<close>

theorem top_1_tie_counterexample:
  "sampling_probs 1 (Some 1) [[0, 0]] = Inr [[1 / 2, 1 / 2]]
   \<and> possible_draw (sampling_probs 1 (Some 1) [[0, 0]]) 0 0
   \<and> possible_draw (sampling_probs 1 (Some 1) [[0, 0]]) 0 1"
  by (simp add: sampling_probs_def crop_top_k_def softmax_def exp_score_def possible_draw_def)

text \<open>
  Claim C9, amended by the condition that the step's logits have a unique largest entry.
  With \<open>top_k = 1\<close> and any temperature \<open>> 0\<close>, if row \<open>b\<close> of the logits has its largest
  value at index \<open>m\<close> and nowhere else, then \<open>m\<close> is the only index of positive
  probability in row \<open>b\<close> of the distribution handed to \<^verbatim>\<open>torch.multinomial\<close>: every
  outcome of the draw is the argmax.
\<close>

theorem top_1_sampling_is_argmax:
  assumes "0 < temperature" and "[] \<notin> set logits" and "b < length logits"
    and "m < length (logits ! b)"
    and "\<forall>j < length (logits ! b). j \<noteq> m \<longrightarrow> logits ! b ! j < logits ! b ! m"
  shows "possible_draw (sampling_probs temperature (Some 1) logits) b j \<longleftrightarrow> j = m"
proof -
  define row where "row = map (\<lambda>x. x / temperature) (logits ! b)"
  define cropped where "cropped = map (\<lambda>x. if x < last (sort row) then NegInf else Finite x) row"
  have len: "length row = length (logits ! b)" by (simp add: row_def)
  have m: "m < length row" using assms(4) len by simp
  have u: "\<forall>j < length row. j \<noteq> m \<longrightarrow> row ! j < row ! m"
    using assms(1,4,5) by (simp add: row_def divide_strict_right_mono)
  have top: "last (sort row) = row ! m" using m u by (rule unique_max_is_last_sort)
  have cm: "cropped ! m = Finite (row ! m)" using m top by (simp add: cropped_def)
  have cj: "cropped ! j = NegInf" if "j < length row" "j \<noteq> m" for j
    using that u top by (simp add: cropped_def)
  have "Finite (row ! m) \<in> set cropped"
    using cm m by (metis cropped_def length_map nth_mem)
  then have pos: "0 < sum_list (map exp_score cropped)" by (rule sum_list_exp_score_pos)
  have eq: "sampling_probs temperature (Some 1) logits
              = Inr (map (\<lambda>row. softmax (map (\<lambda>x. if x < last (sort row) then NegInf else Finite x) row))
                       (map (map (\<lambda>x. x / temperature)) logits))"
    using assms(1,2) by (intro sampling_probs_top_1) simp_all
  have row_b: "map (\<lambda>row. softmax (map (\<lambda>x. if x < last (sort row) then NegInf else Finite x) row))
                 (map (map (\<lambda>x. x / temperature)) logits) ! b = softmax cropped"
    using assms(3) by (simp add: cropped_def row_def)
  have lc: "length (softmax cropped) = length row" by (simp add: softmax_def cropped_def)
  have pm: "0 < softmax cropped ! m"
    using m pos cm by (simp add: softmax_nth cropped_def exp_score_def)
  have pj: "softmax cropped ! j = 0" if "j < length row" "j \<noteq> m" for j
    using that cj by (simp add: softmax_nth cropped_def exp_score_def)
  have "possible_draw (sampling_probs temperature (Some 1) logits) b j
          \<longleftrightarrow> j < length row \<and> 0 < softmax cropped ! j"
    using assms(3) by (simp add: possible_draw_def eq row_b lc del: map_map)
  also have "\<dots> \<longleftrightarrow> j = m" using m pm pj by force
  finally show ?thesis .
qed

theorem top_1_sampling_is_argmax_witness:
  "possible_draw (sampling_probs 2 (Some 1) [[1, 3, 2]]) 0 1
   \<and> \<not> possible_draw (sampling_probs 2 (Some 1) [[1, 3, 2]]) 0 0
   \<and> \<not> possible_draw (sampling_probs 2 (Some 1) [[1, 3, 2]]) 0 2"
proof -
  have u: "\<forall>j < length ([[1, 3, 2]] ! 0). j \<noteq> 1 \<longrightarrow> [[1, 3, 2 :: real]] ! 0 ! j < [[1, 3, 2]] ! 0 ! 1"
    by (simp add: less_Suc_eq eval_nat_numeral)
  have t: "(0 :: real) < 2" and n: "[] \<notin> set [[1, 3, 2 :: real]]"
    and b: "(0 :: nat) < length [[1, 3, 2 :: real]]" and m: "(1 :: nat) < length ([[1, 3, 2 :: real]] ! 0)"
    by simp_all
  show ?thesis
    using top_1_sampling_is_argmax [OF t n b m u, of 1]
          top_1_sampling_is_argmax [OF t n b m u, of 0]
          top_1_sampling_is_argmax [OF t n b m u, of 2]
    by simp
qed

section \<open>Properties of causal attention on the explicit path\<close>

lemma mask_causal_slice:
  assumes "T \<le> bs"
  shows "map (take T) (take T (mask_causal bs)) = mask_causal T"
proof -
  have "take T [0 ..< bs] = [0 ..< T]" using assms by simp
  then show ?thesis by (simp add: mask_causal_def take_map)
qed

lemma causal_fill_returns:
  assumes "length att \<le> bs" and "\<forall>row \<in> set att. length row = length att"
  shows "causal_fill bs att
           = Inr (map (\<lambda>i. map (\<lambda>j. if j \<le> i then Finite (att ! i ! j) else NegInf)
                                [0 ..< length att]) [0 ..< length att])"
proof -
  let ?T = "length att"
  have rows: "length (att ! i) = ?T" if "i < ?T" for i using assms(2) that by simp
  have mrow: "mask_causal ?T ! i = map (\<lambda>j. if j \<le> i then 1 else 0) [0 ..< ?T]" if "i < ?T" for i
    using that by (simp add: mask_causal_def)
  have "map (\<lambda>(row, mrow). map (\<lambda>(a, mv :: real). if mv = 0 then NegInf else Finite a) (zip row mrow))
          (zip att (mask_causal ?T))
        = map (\<lambda>i. map (\<lambda>j. if j \<le> i then Finite (att ! i ! j) else NegInf) [0 ..< ?T]) [0 ..< ?T]"
  proof (rule nth_equalityI)
    show "length (map (\<lambda>(row, mrow). map (\<lambda>(a, mv :: real). if mv = 0 then NegInf else Finite a) (zip row mrow))
          (zip att (mask_causal ?T)))
        = length (map (\<lambda>i. map (\<lambda>j. if j \<le> i then Finite (att ! i ! j) else NegInf) [0 ..< ?T]) [0 ..< ?T])"
      by (simp add: mask_causal_def)
  next
    fix i
    assume "i < length (map (\<lambda>(row, mrow). map (\<lambda>(a, mv :: real). if mv = 0 then NegInf else Finite a) (zip row mrow))
          (zip att (mask_causal ?T)))"
    then have i: "i < ?T" by (simp add: mask_causal_def)
    have "map (\<lambda>(a, mv :: real). if mv = 0 then NegInf else Finite a) (zip (att ! i) (mask_causal ?T ! i))
            = map (\<lambda>j. if j \<le> i then Finite (att ! i ! j) else NegInf) [0 ..< ?T]"
      by (rule nth_equalityI) (simp_all add: rows [OF i] mrow [OF i])
    then show "map (\<lambda>(row, mrow). map (\<lambda>(a, mv :: real). if mv = 0 then NegInf else Finite a) (zip row mrow))
          (zip att (mask_causal ?T)) ! i
        = map (\<lambda>i. map (\<lambda>j. if j \<le> i then Finite (att ! i ! j) else NegInf) [0 ..< ?T]) [0 ..< ?T] ! i"
      using i by (simp add: mask_causal_def)
  qed
  then show ?thesis using assms(1) by (simp add: causal_fill_def mask_causal_slice Let_def)
qed

lemma attention_scores_square:
  assumes "length q = T" and "length k = T"
  shows "length (attention_scores hs q k) = T
       \<and> (\<forall>row \<in> set (attention_scores hs q k). length row = T)"
  using assms by (auto simp: attention_scores_def)

lemma causal_row_softmax:
  assumes "i < T"
  shows "softmax_nan (map (\<lambda>j. if j \<le> i then Finite (a j) else NegInf) [0 ..< T])
           = Some (softmax (map (\<lambda>j. if j \<le> i then Finite (a j) else NegInf) [0 ..< T]))"
proof -
  have "Finite (a i) \<in> set (map (\<lambda>j. if j \<le> i then Finite (a j) else NegInf) [0 ..< T])"
    using assms by (auto simp: image_iff intro!: bexI [of _ i])
  then have "0 < sum_list (map exp_score (map (\<lambda>j. if j \<le> i then Finite (a j) else NegInf) [0 ..< T]))"
    by (rule sum_list_exp_score_pos)
  then show ?thesis by (simp add: softmax_nan_def)
qed

lemma causal_row_future_zero:
  assumes "i < j" and "j < T"
  shows "softmax (map (\<lambda>j. if j \<le> i then Finite (a j) else NegInf) [0 ..< T]) ! j = 0"
  using assms by (simp add: softmax_nth exp_score_def)

lemma weighted_values_length: "length (weighted_values train p keep att v) = length att"
  by (simp add: weighted_values_def)

lemma weighted_values_nth:
  assumes "i < length att" and "att ! i = Some w"
  shows "\<exists>r. weighted_values train p keep att v ! i = Some r \<and> length r = length (transpose v)"
  using assms by (simp add: weighted_values_def)

lemma explicit_attention_lm:
  assumes "\<forall>h < num_heads self. length (q ! h) = T \<and> length (k ! h) = T"
    and "T \<le> block_size self"
  shows "\<exists>ys atts. explicit_attention self ''lm'' msk hs b q k v = Inr (ys, atts)
           \<and> length atts = num_heads self \<and> length ys = num_heads self
           \<and> (\<forall>h < num_heads self. length (atts ! h) = T \<and> length (ys ! h) = T
                \<and> (\<forall>i < T. (\<exists>w. atts ! h ! i = Some w \<and> length w = T
                                   \<and> (\<forall>j. i < j \<and> j < T \<longrightarrow> w ! j = 0))
                            \<and> (\<exists>r. ys ! h ! i = Some r \<and> length r = length (transpose (v ! h)))))"
proof -
  define nh where "nh = num_heads self"
  define sc where "sc = (\<lambda>h. attention_scores hs (q ! h) (k ! h))"
  define filled where
    "filled = (\<lambda>h. map (\<lambda>i. map (\<lambda>j. if j \<le> i then Finite (sc h ! i ! j) else NegInf) [0 ..< T]) [0 ..< T])"
  define atts where "atts = map (map softmax_nan) (map filled [0 ..< nh])"
  define ys where
    "ys = map (\<lambda>h. weighted_values (training self) (dropout self) (attn_keep self b h) (atts ! h) (v ! h))
            [0 ..< nh]"
  have sq: "length (sc h) = T \<and> (\<forall>row \<in> set (sc h). length row = T)" if "h < nh" for h
    unfolding sc_def using assms(1) that by (intro attention_scores_square) (simp_all add: nh_def)
  have fill: "causal_fill (block_size self) (sc h) = Inr (filled h)" if "h < nh" for h
    using causal_fill_returns [of "sc h" "block_size self"] sq [OF that] assms(2)
    by (simp add: filled_def)
  have em: "emap (\<lambda>h. let att = attention_scores hs (q ! h) (k ! h) in
                       if ''lm'' = ''lm'' then causal_fill (block_size self) att
                       else if ''lm'' = ''mlm'' \<and> msk \<noteq> None then Inr (mask_fill (the msk b h) att)
                       else Inr (map (map Finite) att)) [0 ..< nh]
            = Inr (map filled [0 ..< nh])"
    by (rule emap_returns) (simp add: fill [unfolded sc_def])
  have res: "explicit_attention self ''lm'' msk hs b q k v = Inr (ys, atts)"
    unfolding explicit_attention_def using em
    by (simp add: nh_def [symmetric] ys_def atts_def Let_def)
  have a_h: "atts ! h = map softmax_nan (filled h)" if "h < nh" for h
    using that by (simp add: atts_def)
  have a_hi: "atts ! h ! i
                = Some (softmax (map (\<lambda>j. if j \<le> i then Finite (sc h ! i ! j) else NegInf) [0 ..< T]))"
    if "h < nh" "i < T" for h i
    using that causal_row_softmax [of i T "\<lambda>j. sc h ! i ! j"] by (simp add: a_h filled_def)
  have la: "length (atts ! h) = T" if "h < nh" for h using that by (simp add: a_h filled_def)
  have y_h: "ys ! h = weighted_values (training self) (dropout self) (attn_keep self b h)
                        (atts ! h) (v ! h)" if "h < nh" for h
    using that by (simp add: ys_def)
  have wprop: "\<exists>w. atts ! h ! i = Some w \<and> length w = T \<and> (\<forall>j. i < j \<and> j < T \<longrightarrow> w ! j = 0)"
    if "h < nh" "i < T" for h i
  proof -
    let ?row = "map (\<lambda>j. if j \<le> i then Finite (sc h ! i ! j) else NegInf) [0 ..< T]"
    have 1: "atts ! h ! i = Some (softmax ?row)" by (rule a_hi [OF that])
    have 2: "length (softmax ?row) = T" by (simp add: softmax_def)
    have 3: "softmax ?row ! j = 0" if "i < j" "j < T" for j
      using that by (rule causal_row_future_zero)
    show ?thesis using 1 2 3 by blast
  qed
  have yprop: "\<exists>r. ys ! h ! i = Some r \<and> length r = length (transpose (v ! h))"
    if hh: "h < nh" and ii: "i < T" for h i
  proof -
    obtain w where "atts ! h ! i = Some w" using wprop [OF hh ii] by blast
    then show ?thesis
      unfolding y_h [OF hh] using la [OF hh] ii
      by (intro weighted_values_nth) simp_all
  qed
  have "length atts = nh" "length ys = nh" by (simp_all add: atts_def ys_def)
  moreover have "\<forall>h < nh. length (atts ! h) = T \<and> length (ys ! h) = T
                \<and> (\<forall>i < T. (\<exists>w. atts ! h ! i = Some w \<and> length w = T
                                   \<and> (\<forall>j. i < j \<and> j < T \<longrightarrow> w ! j = 0))
                            \<and> (\<exists>r. ys ! h ! i = Some r \<and> length r = length (transpose (v ! h))))"
    using la y_h wprop yprop by (simp add: weighted_values_length)
  ultimately show ?thesis using res unfolding nh_def by blast
qed

lemma linear_returns:
  assumes "length r = n"
  shows "\<exists>out. linear n W bias r = Inr out
           \<and> length out = (case bias of None \<Rightarrow> length W | Some bs \<Rightarrow> min (length W) (length bs))"
  using assms by (cases bias) (simp_all add: linear_def)

lemma length_transpose_rect:
  assumes "xs \<noteq> []" and "\<forall>r \<in> set xs. length r = n"
  shows "length (transpose xs) = n"
proof -
  have "foldr (\<lambda>r. max (length r)) xs 0 = n" using assms
  proof (induction xs)
    case Nil
    then show ?case by simp
  next
    case (Cons a xs)
    show ?case
    proof (cases "xs = []")
      case True
      then show ?thesis using Cons.prems by simp
    next
      case False
      then have "foldr (\<lambda>r. max (length r)) xs 0 = n" using Cons by simp
      then show ?thesis using Cons.prems by simp
    qed
  qed
  then show ?thesis by (simp add: length_transpose)
qed

lemma length_concat_const:
  assumes "\<forall>x \<in> set xs. length (f x) = n"
  shows "length (concat (map f xs)) = length xs * n"
  using assms by (induction xs) simp_all

lemma merge_heads_nth:
  assumes "t < T" and "\<forall>h < nh. \<exists>r. y ! h ! t = Some r \<and> length r = n"
  shows "\<exists>row. merge_heads nh T y ! t = Some row \<and> length row = nh * n"
proof -
  have none: "\<not> list_ex (\<lambda>h. y ! h ! t = None) [0 ..< nh]"
    using assms(2) by (auto simp: list_ex_iff)
  have "\<forall>h \<in> set [0 ..< nh]. length (the (y ! h ! t)) = n"
    using assms(2) by auto
  then have "length (concat (map (\<lambda>h. the (y ! h ! t)) [0 ..< nh])) = length [0 ..< nh] * n"
    by (rule length_concat_const)
  then show ?thesis using assms(1) none by (simp add: merge_heads_def)
qed

lemma project_out_returns:
  assumes "length r = embed_dim self"
  shows "\<exists>out. project_out self b t (Some r) = Inr out"
proof -
  obtain out where "linear (embed_dim self) (out_weight self) (out_bias self) r = Inr out"
    using linear_returns [OF assms] by blast
  then show ?thesis by (simp add: project_out_def)
qed

lemma explicit_attention_lm_ignores_mask:
  "explicit_attention self ''lm'' msk hs b q k v = explicit_attention self ''lm'' None hs b q k v"
  by (simp add: explicit_attention_def)

lemma hybrid_forward_lm_ignores_mask:
  "hybrid_forward self x ''lm'' msk = hybrid_forward self x ''lm'' None"
  by (simp add: hybrid_forward_def Let_def explicit_attention_lm_ignores_mask [of self msk]
      cong: if_cong)

lemma split_heads_nth:
  assumes "h < nh"
  shows "split_heads nh hs m ! h = map (\<lambda>row. take hs (drop (h * hs) row)) m"
  using assms by (simp add: split_heads_def)

lemma hybrid_forward_explicit_path:
  assumes "emap (emap (linear (embed_dim self) (qkv_weight self) (qkv_bias self))) x = Inr qkv"
    and "num_heads self \<noteq> 0" and "embed_dim self mod num_heads self = 0"
    and "\<not> flash self" and "embed_dim self div num_heads self \<noteq> 0"
    and "emap (\<lambda>b. explicit_attention self task msk (embed_dim self div num_heads self) b
                     (map (\<lambda>m. split_heads (num_heads self) (embed_dim self div num_heads self)
                                  (map (take (embed_dim self)) m)) qkv ! b)
                     (map (\<lambda>m. split_heads (num_heads self) (embed_dim self div num_heads self)
                                  (map (\<lambda>r. take (embed_dim self) (drop (embed_dim self) r)) m)) qkv ! b)
                     (map (\<lambda>m. split_heads (num_heads self) (embed_dim self div num_heads self)
                                  (map (\<lambda>r. take (embed_dim self) (drop (2 * embed_dim self) r)) m)) qkv ! b))
            [0 ..< length qkv] = Inr r"
    and "emap (\<lambda>b. emap (\<lambda>t. project_out self b t
                                 (merge_heads (num_heads self) (length (x ! b)) (map fst r ! b) ! t))
                           [0 ..< length (x ! b)])
            [0 ..< length qkv] = Inr out"
  shows "hybrid_forward self x task msk = Inr (out, Some (map snd r))"
  unfolding hybrid_forward_def Let_def
  by (simp only: assms ebind_Inr if_False if_True simp_thms case_prod_conv)

lemma linear_Inr_length:
  assumes "linear n W bias r = Inr out"
  shows "length out = (case bias of None \<Rightarrow> length W | Some bs \<Rightarrow> min (length W) (length bs))"
  using assms by (cases bias) (auto simp: linear_def split: if_splits)

lemma head_slice_length:
  assumes "length r = 3 * E" and "h < nh" and "nh * hs = E"
  shows "length (take hs (drop (h * hs) (take E (drop (2 * E) r)))) = hs"
proof -
  have "Suc h \<le> nh" using assms(2) by simp
  then have "Suc h * hs \<le> nh * hs" by (rule mult_le_mono1)
  then have "h * hs + hs \<le> E" using assms(3) by simp
  then show ?thesis using assms(1) by simp
qed

text \<open>
  Claim C2. On the explicit path (\<open>flash\<close> is false), for a module as \<^verbatim>\<open>__init__\<close> builds
  it (positive head count dividing a positive embedding dimension, a fused projection of
  \<open>3 * embed_dim\<close> rows) and an input of shape \<open>(B, T, embed_dim)\<close> with \<open>T \<le> block_size\<close>,
  \<^verbatim>\<open>forward\<close> with task \<^verbatim>\<open>'lm'\<close> returns, and the post-softmax attention weight of
  every batch element \<open>b\<close> and head \<open>h\<close> from query position \<open>i\<close> onto key position \<open>j\<close>
  is exactly \<open>0\<close> whenever \<open>j > i\<close>. The result is the same whatever mask is supplied.
\<close>

theorem explicit_lm_attention_is_causal:
  assumes nf: "\<not> flash self"
    and nh: "0 < num_heads self"
    and dv: "embed_dim self mod num_heads self = 0"
    and ep: "0 < embed_dim self"
    and wq: "length (qkv_weight self) = 3 * embed_dim self"
    and bq: "\<forall>bs. qkv_bias self = Some bs \<longrightarrow> length bs = 3 * embed_dim self"
    and xs: "list_all (\<lambda>m. length m \<le> block_size self
                            \<and> list_all (\<lambda>r. length r = embed_dim self) m) x"
    and b: "b < length x" and h: "h < num_heads self" and ij: "i < j" and j: "j < length (x ! b)"
  shows "attention_weight (hybrid_forward self x ''lm'' msk) b h i j = Some 0
       \<and> hybrid_forward self x ''lm'' msk = hybrid_forward self x ''lm'' None"
proof -
  define E where "E = embed_dim self"
  define n where "n = num_heads self"
  define hs where "hs = E div n"
  have "num_heads self dvd embed_dim self" using dv by (rule mod_0_imp_dvd)
  then have nhs: "n * hs = E" by (simp add: hs_def E_def n_def)
  have hs0: "hs \<noteq> 0"
  proof
    assume "hs = 0"
    then have "E = 0" using nhs by simp
    then show False using ep by (simp add: E_def)
  qed
  have xrow: "length r = E" if "m \<in> set x" "r \<in> set m" for m r
    using xs that by (auto simp: list_all_iff E_def)
  have xlen: "length m \<le> block_size self" if "m \<in> set x" for m
    using xs that by (auto simp: list_all_iff)
  have outlen: "(case qkv_bias self of None \<Rightarrow> length (qkv_weight self)
                 | Some bs \<Rightarrow> min (length (qkv_weight self)) (length bs)) = 3 * E"
    using wq bq by (cases "qkv_bias self") (simp_all add: E_def)
  \<comment> \<open>the fused projection returns\<close>
  have "\<exists>y. emap (linear E (qkv_weight self) (qkv_bias self)) m = Inr y" if m: "m \<in> set x" for m
  proof (rule emap_total)
    fix r assume "r \<in> set m"
    then have "length r = E" using m by (rule xrow [rotated])
    then show "\<exists>y. linear E (qkv_weight self) (qkv_bias self) r = Inr y"
      using linear_returns [of r E] by blast
  qed
  then obtain qkv where qkv: "emap (emap (linear E (qkv_weight self) (qkv_bias self))) x = Inr qkv"
    using emap_total [of x "emap (linear E (qkv_weight self) (qkv_bias self))"] by blast
  have B: "length qkv = length x" using qkv by (rule emap_Inr_length)
  have qb: "emap (linear E (qkv_weight self) (qkv_bias self)) (x ! c) = Inr (qkv ! c)"
    if "c < length x" for c using qkv that by (rule emap_Inr_nth)
  have T: "length (qkv ! c) = length (x ! c)" if "c < length x" for c
    using qb [OF that] by (rule emap_Inr_length)
  have row3: "length (qkv ! c ! t) = 3 * E" if "c < length x" "t < length (x ! c)" for c t
  proof -
    have "linear E (qkv_weight self) (qkv_bias self) (x ! c ! t) = Inr (qkv ! c ! t)"
      using qb [OF that(1)] that(2) by (rule emap_Inr_nth)
    then show ?thesis using outlen by (simp add: linear_Inr_length)
  qed
  define Q where "Q = map (\<lambda>m. split_heads n hs (map (take E) m)) qkv"
  define K where "K = map (\<lambda>m. split_heads n hs (map (\<lambda>r. take E (drop E r)) m)) qkv"
  define V where "V = map (\<lambda>m. split_heads n hs (map (\<lambda>r. take E (drop (2 * E) r)) m)) qkv"
  have QK: "length (Q ! c ! g) = length (x ! c) \<and> length (K ! c ! g) = length (x ! c)"
    if "c < length x" "g < n" for c g
    using that B T by (simp add: Q_def K_def split_heads_nth)
  \<comment> \<open>the attention of every batch element returns causal weights\<close>
  have att_c: "\<exists>ys atts. explicit_attention self ''lm'' msk hs c (Q ! c) (K ! c) (V ! c) = Inr (ys, atts)
           \<and> length atts = n \<and> length ys = n
           \<and> (\<forall>g < n. length (atts ! g) = length (x ! c) \<and> length (ys ! g) = length (x ! c)
                \<and> (\<forall>t < length (x ! c).
                      (\<exists>w. atts ! g ! t = Some w \<and> length w = length (x ! c)
                            \<and> (\<forall>u. t < u \<and> u < length (x ! c) \<longrightarrow> w ! u = 0))
                      \<and> (\<exists>r. ys ! g ! t = Some r \<and> length r = length (transpose (V ! c ! g)))))"
    if c: "c < length x" for c
  proof -
    have 1: "\<forall>g < num_heads self. length (Q ! c ! g) = length (x ! c) \<and> length (K ! c ! g) = length (x ! c)"
      using QK [OF c] by (simp add: n_def)
    have 2: "length (x ! c) \<le> block_size self" using c by (intro xlen) simp
    show ?thesis using explicit_attention_lm [OF 1 2] by (simp add: n_def)
  qed
  have "\<exists>y. explicit_attention self ''lm'' msk hs c (Q ! c) (K ! c) (V ! c) = Inr y"
    if "c \<in> set [0 ..< length qkv]" for c
    using att_c [of c] that B by auto
  then obtain r where r: "emap (\<lambda>c. explicit_attention self ''lm'' msk hs c (Q ! c) (K ! c) (V ! c))
                            [0 ..< length qkv] = Inr r"
    using emap_total [of "[0 ..< length qkv]"
            "\<lambda>c. explicit_attention self ''lm'' msk hs c (Q ! c) (K ! c) (V ! c)"] by blast
  have rl: "length r = length x" using emap_Inr_length [OF r] B by simp
  have rc: "explicit_attention self ''lm'' msk hs c (Q ! c) (K ! c) (V ! c) = Inr (r ! c)"
    if "c < length x" for c
    using emap_Inr_nth [OF r, of c] that B by simp
  \<comment> \<open>the head outputs have the width of one head, so the output projection returns\<close>
  have vlen: "length (transpose (V ! c ! g)) = hs" if c: "c < length x" and g: "g < n"
    and t: "t < length (x ! c)" for c g t
  proof -
    have vg: "V ! c ! g = map (\<lambda>row. take hs (drop (g * hs) row))
                            (map (\<lambda>r. take E (drop (2 * E) r)) (qkv ! c))"
      using c g B by (simp add: V_def split_heads_nth)
    have ne: "V ! c ! g \<noteq> []" using T [OF c] t by (auto simp: vg)
    have "\<forall>row \<in> set (V ! c ! g). length row = hs"
    proof
      fix row assume "row \<in> set (V ! c ! g)"
      then obtain u where u: "u < length (qkv ! c)"
        and row: "row = take hs (drop (g * hs) (take E (drop (2 * E) (qkv ! c ! u))))"
        unfolding vg by (auto simp: in_set_conv_nth)
      have "length (qkv ! c ! u) = 3 * E" using u T [OF c] c by (intro row3) simp_all
      then show "length row = hs" unfolding row using g nhs by (rule head_slice_length)
    qed
    then show ?thesis using ne by (intro length_transpose_rect) simp_all
  qed
  have proj: "\<exists>y. project_out self c t
                    (merge_heads n (length (x ! c)) (map fst r ! c) ! t) = Inr y"
    if c: "c < length x" and t: "t < length (x ! c)" for c t
  proof -
    obtain ys atts where ya: "r ! c = (ys, atts)" by (cases "r ! c")
    have "\<forall>g < n. \<exists>row. ys ! g ! t = Some row \<and> length row = hs"
      using att_c [OF c] rc [OF c] ya t vlen [OF c _ t] by auto
    then obtain row where "merge_heads n (length (x ! c)) ys ! t = Some row" "length row = n * hs"
      using merge_heads_nth [OF t, of n ys hs] by blast
    then show ?thesis
      using project_out_returns [of row self c t] ya c rl nhs by (simp add: E_def)
  qed
  have "\<exists>y. emap (\<lambda>t. project_out self c t (merge_heads n (length (x ! c)) (map fst r ! c) ! t))
               [0 ..< length (x ! c)] = Inr y"
    if "c \<in> set [0 ..< length qkv]" for c
    using that B proj [of c] by (intro emap_total) auto
  then obtain out where out:
    "emap (\<lambda>c. emap (\<lambda>t. project_out self c t (merge_heads n (length (x ! c)) (map fst r ! c) ! t))
                   [0 ..< length (x ! c)])
       [0 ..< length qkv] = Inr out"
    using emap_total [of "[0 ..< length qkv]"
            "\<lambda>c. emap (\<lambda>t. project_out self c t (merge_heads n (length (x ! c)) (map fst r ! c) ! t))
                        [0 ..< length (x ! c)]"] by blast
  have res: "hybrid_forward self x ''lm'' msk = Inr (out, Some (map snd r))"
  proof (rule hybrid_forward_explicit_path)
    show "emap (emap (linear (embed_dim self) (qkv_weight self) (qkv_bias self))) x = Inr qkv"
      using qkv by (simp add: E_def)
    show "num_heads self \<noteq> 0" using nh by simp
    show "embed_dim self mod num_heads self = 0" by (rule dv)
    show "\<not> flash self" by (rule nf)
    show "embed_dim self div num_heads self \<noteq> 0" using hs0 by (simp add: hs_def E_def n_def)
    show "emap (\<lambda>b. explicit_attention self ''lm'' msk (embed_dim self div num_heads self) b
                     (map (\<lambda>m. split_heads (num_heads self) (embed_dim self div num_heads self)
                                  (map (take (embed_dim self)) m)) qkv ! b)
                     (map (\<lambda>m. split_heads (num_heads self) (embed_dim self div num_heads self)
                                  (map (\<lambda>r. take (embed_dim self) (drop (embed_dim self) r)) m)) qkv ! b)
                     (map (\<lambda>m. split_heads (num_heads self) (embed_dim self div num_heads self)
                                  (map (\<lambda>r. take (embed_dim self) (drop (2 * embed_dim self) r)) m)) qkv ! b))
            [0 ..< length qkv] = Inr r"
      using r unfolding Q_def K_def V_def hs_def E_def n_def .
    show "emap (\<lambda>b. emap (\<lambda>t. project_out self b t
                                 (merge_heads (num_heads self) (length (x ! b)) (map fst r ! b) ! t))
                           [0 ..< length (x ! b)])
            [0 ..< length qkv] = Inr out"
      using out unfolding n_def .
  qed
  \<comment> \<open>reading the weight\<close>
  obtain ys atts where ya: "r ! b = (ys, atts)" by (cases "r ! b")
  have hn: "h < n" using h by (simp add: n_def)
  have i: "i < length (x ! b)" using ij j by simp
  obtain ys' atts' where e: "explicit_attention self ''lm'' msk hs b (Q ! b) (K ! b) (V ! b) = Inr (ys', atts')"
    and la': "length atts' = n"
    and P: "\<forall>g < n. length (atts' ! g) = length (x ! b) \<and> length (ys' ! g) = length (x ! b)
                \<and> (\<forall>t < length (x ! b).
                      (\<exists>w. atts' ! g ! t = Some w \<and> length w = length (x ! b)
                            \<and> (\<forall>u. t < u \<and> u < length (x ! b) \<longrightarrow> w ! u = 0))
                      \<and> (\<exists>r. ys' ! g ! t = Some r \<and> length r = length (transpose (V ! b ! g))))"
    using att_c [OF b] by blast
  have same: "atts' = atts" using e rc [OF b] ya by simp
  have la: "length atts = n" "length (atts ! h) = length (x ! b)"
    using la' P hn same by simp_all
  have "\<exists>w. atts ! h ! i = Some w \<and> length w = length (x ! b)
              \<and> (\<forall>u. i < u \<and> u < length (x ! b) \<longrightarrow> w ! u = 0)"
    using P hn i same by simp
  then obtain w where w: "atts ! h ! i = Some w" "length w = length (x ! b)" "w ! j = 0"
    using ij j by blast
  have "attention_weight (hybrid_forward self x ''lm'' msk) b h i j = Some 0"
    using res b rl ya hn i j w la by (simp add: attention_weight_def)
  then show ?thesis using hybrid_forward_lm_ignores_mask [of self x msk] by simp
qed

theorem explicit_lm_attention_is_causal_witness:
  "attention_weight
     (hybrid_forward toy_attention [[[1], [2]]] ''lm'' (Some (\<lambda>b h i j. False))) 0 0 0 1 = Some 0
   \<and> hybrid_forward toy_attention [[[1], [2]]] ''lm'' (Some (\<lambda>b h i j. False))
       = hybrid_forward toy_attention [[[1], [2]]] ''lm'' None"
proof -
  have nf: "\<not> flash toy_attention"
    and nh: "0 < num_heads toy_attention"
    and dv: "embed_dim toy_attention mod num_heads toy_attention = 0"
    and ep: "0 < embed_dim toy_attention"
    and wq: "length (qkv_weight toy_attention) = 3 * embed_dim toy_attention"
    and bq: "\<forall>bs. qkv_bias toy_attention = Some bs \<longrightarrow> length bs = 3 * embed_dim toy_attention"
    and xs: "list_all (\<lambda>m. length m \<le> block_size toy_attention
                            \<and> list_all (\<lambda>r. length r = embed_dim toy_attention) m) [[[1], [2 :: real]]]"
    and h: "(0 :: nat) < num_heads toy_attention"
    by (simp_all add: toy_attention_def)
  have b: "(0 :: nat) < length [[[1], [2 :: real]]]" and ij: "(0 :: nat) < 1"
    and j: "(1 :: nat) < length ([[[1], [2 :: real]]] ! 0)"
    by simp_all
  show ?thesis
    by (rule explicit_lm_attention_is_causal [OF nf nh dv ep wq bq xs b h ij j])
qed

section \<open>Termination flags of the sampling loop\<close>

lemma sample_step_Inr:
  assumes "sample_step self temperature top_k eos pad draw (idx, flag) = Inr res"
  obtains fl probs where
    "(if truthy eos then
        (if [] \<in> set idx then Inl IndexError
         else Inr (map (\<lambda>(f, row). f \<or> (Some (last row) = eos \<or> last row = pad))
                    (zip flag idx)))
      else Inr flag) = Inr fl"
    and "(let sampled = map (\<lambda>(b, p). int (draw b p)) (zip [0 ..< length probs] probs);
              idx_next = map (\<lambda>(f, t). if f then pad else t) (zip fl sampled)
          in if length idx_next \<noteq> length idx then Inl RuntimeError
             else Inr (map (\<lambda>(row, t). row @ [t]) (zip idx idx_next), fl)) = Inr res"
  using assms unfolding sample_step_def prod.case ebind_eq_Inr by blast

lemma sample_step_row:
  assumes s: "sample_step self temperature top_k eos pad draw (idx, flag) = Inr (idx', flag')"
    and lf: "length flag = length idx" and b: "b < length idx"
  shows "length idx' = length idx \<and> length flag' = length idx
       \<and> (\<exists>tk. idx' ! b = idx ! b @ [tk] \<and> (flag' ! b \<longrightarrow> tk = pad))
       \<and> (truthy eos \<longrightarrow>
            (flag' ! b \<longleftrightarrow> flag ! b \<or> Some (last (idx ! b)) = eos \<or> last (idx ! b) = pad))"
proof -
  obtain fl probs where
    f1: "(if truthy eos then
            (if [] \<in> set idx then Inl IndexError
             else Inr (map (\<lambda>(f, row). f \<or> (Some (last row) = eos \<or> last row = pad))
                        (zip flag idx)))
          else Inr flag) = Inr fl"
    and r: "(let sampled = map (\<lambda>(b, p). int (draw b p)) (zip [0 ..< length probs] probs);
                 idx_next = map (\<lambda>(f, t). if f then pad else t) (zip fl sampled)
             in if length idx_next \<noteq> length idx then Inl RuntimeError
                else Inr (map (\<lambda>(row, t). row @ [t]) (zip idx idx_next), fl)) = Inr (idx', flag')"
    using s by (rule sample_step_Inr)
  define nxt where "nxt = map (\<lambda>(f, t). if f then pad else t)
       (zip fl (map (\<lambda>(b, p). int (draw b p)) (zip [0 ..< length probs] probs)))"
  have r': "(if length nxt \<noteq> length idx then Inl RuntimeError
             else Inr (map (\<lambda>(row, t). row @ [t]) (zip idx nxt), fl)) = Inr (idx', flag')"
    using r unfolding Let_def nxt_def .
  have ln: "length nxt = length idx"
  proof (rule ccontr)
    assume "length nxt \<noteq> length idx"
    then show False using r' by simp
  qed
  have i': "idx' = map (\<lambda>(row, t). row @ [t]) (zip idx nxt)" and f': "flag' = fl"
    using r' ln by simp_all
  have fl: "fl = (if truthy eos
       then map (\<lambda>(f, row). f \<or> (Some (last row) = eos \<or> last row = pad)) (zip flag idx)
       else flag)"
  proof (cases "truthy eos")
    case True
    then have "[] \<notin> set idx" using f1 by (cases "[] \<in> set idx") simp_all
    then show ?thesis using f1 True by simp
  next
    case False
    then show ?thesis using f1 by simp
  qed
  have lfl: "length fl = length idx" using lf by (simp add: fl)
  have bn: "b < length nxt" using b ln by simp
  have row: "idx' ! b = idx ! b @ [nxt ! b]" using b ln by (simp add: i')
  have "b < length (zip fl (map (\<lambda>(b, p). int (draw b p)) (zip [0 ..< length probs] probs)))"
    using bn by (simp add: nxt_def)
  then have pd: "fl ! b \<longrightarrow> nxt ! b = pad" by (simp add: nxt_def)
  have tr: "fl ! b \<longleftrightarrow> flag ! b \<or> Some (last (idx ! b)) = eos \<or> last (idx ! b) = pad"
    if "truthy eos"
    using that b lf by (simp add: fl)
  show ?thesis using ln i' f' lfl row pd tr by simp
qed

lemma sample_loop_sticky:
  assumes "truthy eos"
    and "sample_loop self temperature top_k eos pad draw n step (idx, flag) = Inr (idx', flag')"
    and "length flag = length idx" and "b < length idx"
  shows "\<exists>ts. idx' ! b = idx ! b @ ts \<and> length ts = n \<and> length idx' = length idx
           \<and> ((flag ! b \<or> (0 < n \<and> (Some (last (idx ! b)) = eos \<or> last (idx ! b) = pad)))
                 \<longrightarrow> ts = replicate n pad)
           \<and> (\<forall>p q. p < q \<and> q < n \<and> (Some (ts ! p) = eos \<or> ts ! p = pad) \<longrightarrow> ts ! q = pad)"
  using assms(2-4)
proof (induction n arbitrary: step idx flag)
  case 0
  then show ?case by simp
next
  case (Suc n)
  have "ebind (sample_step self temperature top_k eos pad (draw step) (idx, flag))
          (sample_loop self temperature top_k eos pad draw n (Suc step)) = Inr (idx', flag')"
    using Suc.prems(1) by (simp only: sample_loop.simps)
  then obtain st1 where
    s0: "sample_step self temperature top_k eos pad (draw step) (idx, flag) = Inr st1"
    and l0: "sample_loop self temperature top_k eos pad draw n (Suc step) st1 = Inr (idx', flag')"
    unfolding ebind_eq_Inr by blast
  obtain idx1 flag1 where st1: "st1 = (idx1, flag1)" by (cases st1)
  have s: "sample_step self temperature top_k eos pad (draw step) (idx, flag) = Inr (idx1, flag1)"
    using s0 st1 by simp
  have l: "sample_loop self temperature top_k eos pad draw n (Suc step) (idx1, flag1) = Inr (idx', flag')"
    using l0 st1 by simp
  have st: "length idx1 = length idx \<and> length flag1 = length idx
       \<and> (\<exists>tk. idx1 ! b = idx ! b @ [tk] \<and> (flag1 ! b \<longrightarrow> tk = pad))
       \<and> (truthy eos \<longrightarrow>
            (flag1 ! b \<longleftrightarrow> flag ! b \<or> Some (last (idx ! b)) = eos \<or> last (idx ! b) = pad))"
    using s Suc.prems(2,3) by (rule sample_step_row)
  then obtain tk where tk: "idx1 ! b = idx ! b @ [tk]" "flag1 ! b \<longrightarrow> tk = pad" by blast
  have f1: "flag1 ! b \<longleftrightarrow> flag ! b \<or> Some (last (idx ! b)) = eos \<or> last (idx ! b) = pad"
    using st assms(1) by blast
  have l1: "length flag1 = length idx1" "b < length idx1" using st Suc.prems(3) by simp_all
  obtain ts where ts: "idx' ! b = idx1 ! b @ ts" "length ts = n" "length idx' = length idx1"
    and a: "(flag1 ! b \<or> (0 < n \<and> (Some (last (idx1 ! b)) = eos \<or> last (idx1 ! b) = pad)))
                 \<longrightarrow> ts = replicate n pad"
    and c: "\<forall>p q. p < q \<and> q < n \<and> (Some (ts ! p) = eos \<or> ts ! p = pad) \<longrightarrow> ts ! q = pad"
    using Suc.IH [OF l l1] by blast
  have 1: "idx' ! b = idx ! b @ (tk # ts)" using ts(1) tk(1) by simp
  have 2: "length (tk # ts) = Suc n" using ts(2) by simp
  have 3: "length idx' = length idx" using ts(3) st by simp
  have 4: "tk # ts = replicate (Suc n) pad"
    if "flag ! b \<or> (0 < Suc n \<and> (Some (last (idx ! b)) = eos \<or> last (idx ! b) = pad))"
    using that f1 tk(2) a by simp
  have 5: "(tk # ts) ! q = pad"
    if pq: "p < q" "q < Suc n" and e: "Some ((tk # ts) ! p) = eos \<or> (tk # ts) ! p = pad" for p q
  proof (cases p)
    case 0
    then have "Some (last (idx1 ! b)) = eos \<or> last (idx1 ! b) = pad" using e tk(1) by simp
    moreover have "0 < n" using pq by simp
    ultimately have "ts = replicate n pad" using a by blast
    then show ?thesis using pq by (cases q) simp_all
  next
    case (Suc p')
    obtain q' where q': "q = Suc q'" using pq by (cases q) simp_all
    have e': "Some (ts ! p') = eos \<or> ts ! p' = pad" using e Suc by simp
    have "p' < q' \<and> q' < n" using pq Suc q' by simp
    then have "p' < q' \<and> q' < n \<and> (Some (ts ! p') = eos \<or> ts ! p' = pad)" using e' by blast
    then have "ts ! q' = pad" using c by blast
    then show ?thesis using q' by simp
  qed
  show ?case
  proof (intro exI [of _ "tk # ts"] conjI allI impI)
    show "idx' ! b = idx ! b @ tk # ts" by (rule 1)
    show "length (tk # ts) = Suc n" by (rule 2)
    show "length idx' = length idx" by (rule 3)
    show "tk # ts = replicate (Suc n) pad"
      if "flag ! b \<or> (0 < Suc n \<and> (Some (last (idx ! b)) = eos \<or> last (idx ! b) = pad))"
      using that by (rule 4)
    show "(tk # ts) ! q = pad"
      if "p < q \<and> q < Suc n \<and> (Some ((tk # ts) ! p) = eos \<or> (tk # ts) ! p = pad)" for p q
      using that 5 [of p q] by blast
  qed
qed

text \<open>
  Claim C6 as stated does not hold for every choice of \<open>eos_token_id\<close>: the flag is only
  updated under the guard \<^verbatim>\<open>if eos_token_id:\<close>. Without an end token (\<^verbatim>\<open>None\<close>) the pad
  token \<open>1\<close> emitted at the first step is followed by the sampled token \<open>5\<close>; the same
  happens after the end token when its id is \<open>0\<close>, which the guard also counts as false.
\<close>

theorem generate_single_token_falsy_eos_counterexample:
  "generate_single_token toy_model [[7]] 2 1 None None 1
     (\<lambda>step b p. if step = 0 then 1 else 5) = Inr [[7, 1, 5]]
   \<and> generate_single_token toy_model [[7]] 2 1 None (Some 0) 1
     (\<lambda>step b p. if step = 0 then 0 else 5) = Inr [[7, 0, 5]]"
  by (simp add: generate_single_token_def sample_step_def truthy_def crop_context_def forward_def
      toy_model_def get_cls_embeddings_def get_lm_embeddings_def apply_head_def linear_nobias_def
      sampling_probs_def exp_score_def softmax_def dot_def eval_nat_numeral)

text \<open>
  Claim C6, amended to the end tokens that pass the guard \<^verbatim>\<open>if eos_token_id:\<close> (an id
  other than \<open>0\<close>). For such an \<open>eos_token_id\<close>, every \<open>pad_token_id\<close> and every sequence
  \<open>b\<close> of the batch: if the token appended by \<^verbatim>\<open>generate_single_token\<close> at some step
  (position \<open>p\<close>, at or after the end of the conditioning sequence) is the end or the pad
  token, then the token appended at every later step (position \<open>q > p\<close>) is the pad
  token, whatever was sampled.
\<close>

theorem generate_single_token_sticky:
  assumes "truthy eos"
    and "generate_single_token self idx max_new_tokens temperature top_k eos pad draw = Inr idx'"
    and "b < length idx" and "length (idx ! b) \<le> p" and "p < q" and "q < length (idx' ! b)"
    and "Some (idx' ! b ! p) = eos \<or> idx' ! b ! p = pad"
  shows "idx' ! b ! q = pad"
proof -
  obtain flag' where
    l: "sample_loop self temperature top_k eos pad draw (nat max_new_tokens) 0
          (idx, replicate (length idx) False) = Inr (idx', flag')"
    using assms(2) by (auto simp: generate_single_token_def ebind_eq_Inr)
  have lf: "length (replicate (length idx) False) = length idx" by simp
  obtain ts where ts: "idx' ! b = idx ! b @ ts" "length ts = nat max_new_tokens"
    and c: "\<forall>p q. p < q \<and> q < nat max_new_tokens \<and> (Some (ts ! p) = eos \<or> ts ! p = pad)
              \<longrightarrow> ts ! q = pad"
    using sample_loop_sticky [OF assms(1) l lf assms(3)] by blast
  define p' where "p' = p - length (idx ! b)"
  define q' where "q' = q - length (idx ! b)"
  have pq: "p' < q'" "q' < nat max_new_tokens"
    using assms(4,5,6) ts by (simp_all add: p'_def q'_def)
  have np: "idx' ! b ! p = ts ! p'" using assms(4) ts(1) by (simp add: p'_def nth_append)
  have nq: "idx' ! b ! q = ts ! q'" using assms(4,5) ts(1) by (simp add: q'_def nth_append)
  have "Some (ts ! p') = eos \<or> ts ! p' = pad" using assms(7) np by simp
  then have "p' < q' \<and> q' < nat max_new_tokens \<and> (Some (ts ! p') = eos \<or> ts ! p' = pad)"
    using pq by blast
  then have "ts ! q' = pad" using c by blast
  then show ?thesis using nq by simp
qed

theorem generate_single_token_sticky_witness:
  "generate_single_token toy_model [[7]] 2 1 None (Some 2) 1
     (\<lambda>step b p. if step = 0 then 2 else 5) = Inr [[7, 2, 1]]
   \<and> [[7, 2, 1 :: int]] ! 0 ! 2 = 1"
proof -
  have t: "truthy (Some 2)" by (simp add: truthy_def)
  have g: "generate_single_token toy_model [[7]] 2 1 None (Some 2) 1
             (\<lambda>step b p. if step = 0 then 2 else 5) = Inr [[7, 2, 1]]"
    by (simp add: generate_single_token_def sample_step_def truthy_def crop_context_def forward_def
        toy_model_def get_cls_embeddings_def get_lm_embeddings_def apply_head_def linear_nobias_def
        sampling_probs_def exp_score_def softmax_def dot_def eval_nat_numeral)
  have b: "(0 :: nat) < length [[7 :: int]]" and p: "length ([[7 :: int]] ! 0) \<le> 1"
    and pq: "(1 :: nat) < 2" and q: "2 < length ([[7, 2, 1 :: int]] ! 0)"
    and e: "Some ([[7, 2, 1 :: int]] ! 0 ! 1) = Some 2 \<or> [[7, 2, 1 :: int]] ! 0 ! 1 = 1"
    by simp_all
  show ?thesis using generate_single_token_sticky [OF t g b p pq q e] g by simp
qed

section \<open>Unknown task tags in the attention module\<close>

text \<open>
  On the fused path a tag other than \<^verbatim>\<open>'lm'\<close> and \<^verbatim>\<open>'mlm'\<close> never yields a result.
\<close>

lemma hybrid_forward_flash_unknown_task:
  assumes "flash self" and "task \<noteq> ''lm''" and "task \<noteq> ''mlm''"
  shows "\<exists>e. hybrid_forward self x task msk = Inl e"
proof (cases "emap (emap (linear (embed_dim self) (qkv_weight self) (qkv_bias self))) x")
  case (Inl e)
  then show ?thesis by (simp add: hybrid_forward_def)
next
  case (Inr qkv)
  then show ?thesis using assms by (simp add: hybrid_forward_def Let_def)
qed

text \<open>
  On the explicit path such a tag is not rejected: the call computes what task
  \<^verbatim>\<open>'mlm'\<close> without a mask computes.
\<close>

lemma explicit_attention_unknown_task:
  assumes "task \<noteq> ''lm''" and "task \<noteq> ''mlm''"
  shows "explicit_attention self task msk hs b q k v
           = explicit_attention self ''mlm'' None hs b q k v"
  using assms by (simp add: explicit_attention_def)

lemma hybrid_forward_explicit_unknown_task:
  assumes "\<not> flash self" and "task \<noteq> ''lm''" and "task \<noteq> ''mlm''"
  shows "hybrid_forward self x task msk = hybrid_forward self x ''mlm'' None"
  using assms
  by (simp add: hybrid_forward_def Let_def explicit_attention_unknown_task [of task self msk]
      cong: if_cong)

section \<open>The token appended at a sampling step\<close>

lemma sample_step_Inr_probs:
  assumes "sample_step self temperature top_k eos pad draw (idx, flag) = Inr res"
  obtains fl logits probs where
    "(if truthy eos then
        (if [] \<in> set idx then Inl IndexError
         else Inr (map (\<lambda>(f, row). f \<or> (Some (last row) = eos \<or> last row = pad))
                    (zip flag idx)))
      else Inr flag) = Inr fl"
    and "sampling_probs temperature top_k logits = Inr probs"
    and "(let sampled = map (\<lambda>(b, p). int (draw b p)) (zip [0 ..< length probs] probs);
              idx_next = map (\<lambda>(f, t). if f then pad else t) (zip fl sampled)
          in if length idx_next \<noteq> length idx then Inl RuntimeError
             else Inr (map (\<lambda>(row, t). row @ [t]) (zip idx idx_next), fl)) = Inr res"
  using assms unfolding sample_step_def prod.case ebind_eq_Inr by blast

text \<open>
  The token appended at a step to a sequence that has not ended is the index drawn from
  that sequence's row of the distribution computed by \<open>sampling_probs\<close>.
\<close>

lemma sample_step_token:
  assumes s: "sample_step self temperature top_k eos pad draw (idx, flag) = Inr (idx', flag')"
    and lf: "length flag = length idx" and b: "b < length idx"
  shows "\<exists>logits probs. sampling_probs temperature top_k logits = Inr probs \<and> b < length probs
           \<and> idx' ! b = idx ! b @ [if flag' ! b then pad else int (draw b (probs ! b))]"
proof -
  obtain fl logits probs where
    f1: "(if truthy eos then
             (if [] \<in> set idx then Inl IndexError
              else Inr (map (\<lambda>(f, row). f \<or> (Some (last row) = eos \<or> last row = pad))
                         (zip flag idx)))
           else Inr flag) = Inr fl"
    and sp: "sampling_probs temperature top_k logits = Inr probs"
    and r: "(let sampled = map (\<lambda>(b, p). int (draw b p)) (zip [0 ..< length probs] probs);
                idx_next = map (\<lambda>(f, t). if f then pad else t) (zip fl sampled)
            in if length idx_next \<noteq> length idx then Inl RuntimeError
               else Inr (map (\<lambda>(row, t). row @ [t]) (zip idx idx_next), fl)) = Inr (idx', flag')"
    using s by (rule sample_step_Inr_probs)
  define nxt where "nxt = map (\<lambda>(f, t). if f then pad else t)
       (zip fl (map (\<lambda>(b, p). int (draw b p)) (zip [0 ..< length probs] probs)))"
  have r': "(if length nxt \<noteq> length idx then Inl RuntimeError
             else Inr (map (\<lambda>(row, t). row @ [t]) (zip idx nxt), fl)) = Inr (idx', flag')"
    using r unfolding Let_def nxt_def .
  have ln: "length nxt = length idx"
  proof (rule ccontr)
    assume "length nxt \<noteq> length idx"
    then show False using r' by simp
  qed
  have i': "idx' = map (\<lambda>(row, t). row @ [t]) (zip idx nxt)" and f': "flag' = fl"
    using r' ln by simp_all
  have "length nxt \<le> length probs" by (simp add: nxt_def)
  then have bp: "b < length probs" using b ln by simp
  have bf: "b < length fl" using b ln by (simp add: nxt_def)
  have "nxt ! b = (if fl ! b then pad else int (draw b (probs ! b)))"
    using bp bf by (simp add: nxt_def)
  then have "idx' ! b = idx ! b @ [if flag' ! b then pad else int (draw b (probs ! b))]"
    using b ln by (simp add: i' f')
  then show ?thesis using sp bp by blast
qed

end
